theory Spec2Isabelle
  imports Main "HOL-Library.Word" "HOL-Library.AList"
begin

section \<open>JavaScript strings\<close>

text \<open>
  A JavaScript string is a sequence of UTF-16 code units. The regular expressions of the
  converter carry no \<open>u\<close> flag, so they classify single code units, and every white
  space character of ECMAScript lies in the basic plane: a list of 16-bit words is exact.
  \<open>js\<close> turns an ASCII literal into such a string.
\<close>

type_synonym jschar = "16 word"
type_synonym jsstring = "16 word list"
type_synonym buffer = "8 word list"

definition js :: "string \<Rightarrow> jsstring" where
  "js s = map (\<lambda>c. of_nat (of_char c)) s"

text \<open>
  The class \<open>\s\<close> of a regular expression and the characters stripped by
  \<open>String.prototype.trim\<close> are the same set: WhiteSpace and LineTerminator.
\<close>

definition is_space :: "jschar \<Rightarrow> bool" where
  "is_space c \<longleftrightarrow>
     unat c \<in> {9, 10, 11, 12, 13, 32, 160, 5760, 8232, 8233, 8239, 8287, 12288, 65279}
     \<or> (8192 \<le> unat c \<and> unat c \<le> 8202)"

definition is_letter :: "jschar \<Rightarrow> bool" where
  "is_letter c \<longleftrightarrow> (97 \<le> unat c \<and> unat c \<le> 122) \<or> (65 \<le> unat c \<and> unat c \<le> 90)"

definition is_digit :: "jschar \<Rightarrow> bool" where
  "is_digit c \<longleftrightarrow> 48 \<le> unat c \<and> unat c \<le> 57"

text \<open>The class \<open>[a-zA-Z0-9_.-]\<close>.\<close>

definition is_tag_char :: "jschar \<Rightarrow> bool" where
  "is_tag_char c \<longleftrightarrow>
     is_letter c \<or> is_digit c \<or> unat c = 95 \<or> unat c = 46 \<or> unat c = 45"

definition trim :: "jsstring \<Rightarrow> jsstring" where
  "trim s = rev (dropWhile is_space (rev (dropWhile is_space s)))"

text \<open>\<open>s.replace(/\s+/g, "_")\<close>: every maximal run of white space becomes one underscore.\<close>

function replace_spaces :: "jsstring \<Rightarrow> jsstring" where
  "replace_spaces [] = []"
| "replace_spaces (c # cs) =
     (if is_space c then 95 # replace_spaces (dropWhile is_space cs)
      else c # replace_spaces cs)"
  by pat_completeness auto
termination
  by (relation "measure length") (auto simp: less_Suc_eq_le length_dropWhile_le)

text \<open>
  \<open>s.replace(pat, rep)\<close> with a string pattern: the first occurrence only. The
  replacement text of the converter holds no \<open>$\<close>, so it is inserted as it is.
\<close>

fun replace_first :: "jsstring \<Rightarrow> jsstring \<Rightarrow> jsstring \<Rightarrow> jsstring" where
  "replace_first pat rep [] = (if pat = [] then rep else [])"
| "replace_first pat rep (c # cs) =
     (if take (length pat) (c # cs) = pat then rep @ drop (length pat) (c # cs)
      else c # replace_first pat rep cs)"

text \<open>
  The decimal text of a column number, as the template literal renders it. Column numbers
  stay far below the size at which JavaScript prints a number with an exponent.
\<close>

function decimal :: "nat \<Rightarrow> jsstring" where
  "decimal n =
     (if n < 10 then [of_nat (48 + n)]
      else decimal (n div 10) @ [of_nat (48 + n mod 10)])"
  by pat_completeness auto
termination
  by (relation "measure id") auto

declare decimal.simps [simp del]

section \<open>Tag sanitizer\<close>

text \<open>
  \<open>_sanitizeXmlTag(tag)\<close>. The argument is \<open>None\<close> for \<open>null\<close> and
  \<open>undefined\<close>; \<open>!tag\<close> holds for these and for the empty string.
\<close>

definition starts_with_letter_or_underscore :: "jsstring \<Rightarrow> bool" where
  "starts_with_letter_or_underscore s =
     (case s of [] \<Rightarrow> False | c # _ \<Rightarrow> is_letter c \<or> unat c = 95)"

definition sanitizeXmlTag :: "jsstring option \<Rightarrow> jsstring" where
  "sanitizeXmlTag tag0 =
     (case tag0 of
        None \<Rightarrow> js ''EMPTY_TAG''
      | Some t0 \<Rightarrow>
          if t0 = [] then js ''EMPTY_TAG''
          else
            let tag = trim t0;
                tag = replace_spaces tag;
                tag = filter is_tag_char tag;
                tag = (if \<not> starts_with_letter_or_underscore tag then 95 # tag else tag);
                tag = (if tag = [] then js ''EMPTY_TAG'' else tag)
            in tag)"

section \<open>JavaScript objects as ordered dictionaries\<close>

text \<open>
  An object is the list of its own properties in insertion order, with distinct keys.
  \<open>Object.entries\<close> and \<open>Object.keys\<close> list the keys that are array indices
  first, in ascending numeric order, then the other keys in insertion order.
\<close>

type_synonym 'a jsobject = "(jsstring \<times> 'a) list"

definition digits_value :: "jsstring \<Rightarrow> nat" where
  "digits_value k = fold (\<lambda>c n. 10 * n + (unat c - 48)) k 0"

definition array_index :: "jsstring \<Rightarrow> nat option" where
  "array_index k =
     (if k \<noteq> [] \<and> list_all is_digit k \<and> (length k = 1 \<or> hd k \<noteq> 48)
         \<and> digits_value k < 4294967295
      then Some (digits_value k) else None)"

definition index_rank :: "jsstring \<times> 'a \<Rightarrow> nat" where
  "index_rank p = (case array_index (fst p) of Some n \<Rightarrow> n | None \<Rightarrow> 0)"

definition obj_entries :: "'a jsobject \<Rightarrow> (jsstring \<times> 'a) list" where
  "obj_entries obj =
     sort_key index_rank (filter (\<lambda>p. array_index (fst p) \<noteq> None) obj)
     @ filter (\<lambda>p. array_index (fst p) = None) obj"

definition obj_keys :: "'a jsobject \<Rightarrow> jsstring list" where
  "obj_keys obj = map fst (obj_entries obj)"

text \<open>
  The assignment \<open>obj[k] = x\<close> of a text \<open>x\<close> to an object made by \<open>{}\<close>. Every
  key but one names a data property: the value of an own key is overwritten where it
  stands, and a new key is appended, also when \<open>Object.prototype\<close> has a property of
  that name. The key \<open>__proto__\<close> is the accessor of \<open>Object.prototype\<close>: the
  assignment runs its setter, which ignores a value that is neither an object nor
  \<open>null\<close>, and the object gets no property.
\<close>

definition obj_assign :: "jsstring \<Rightarrow> jsstring \<Rightarrow> jsstring jsobject \<Rightarrow> jsstring jsobject" where
  "obj_assign k x obj = (if k = js ''__proto__'' then obj else AList.update k x obj)"

section \<open>Sheets and cell extraction\<close>

text \<open>
  A cell of the spreadsheet library has an optional formatted text \<open>w\<close> and an
  optional raw value \<open>v\<close>, of a type \<open>'v\<close> left open (number, string, boolean, date);
  \<open>String(v)\<close> is the parameter \<open>str\<close> of the functions below. A worksheet holds
  its declared extent \<open>!ref\<close>, here already decoded, and its cells, addressed by
  (row, column) for the address text that \<open>encode_cell\<close> builds.
\<close>

record 'v cell =
  cell_w :: "jsstring option"
  cell_v :: "'v option"

record range =
  s_r :: nat
  s_c :: nat
  e_r :: nat
  e_c :: nat

record 'v worksheet =
  ref :: "range option"
  cells :: "nat \<times> nat \<Rightarrow> 'v cell option"

text \<open>\<open>XLSX.utils.decode_range(worksheet["!ref"] || "A1")\<close>.\<close>

definition decode_ref :: "'v worksheet \<Rightarrow> range" where
  "decode_ref worksheet =
     (case ref worksheet of
        Some rg \<Rightarrow> rg
      | None \<Rightarrow> \<lparr>s_r = 0, s_c = 0, e_r = 0, e_c = 0\<rparr>)"

definition getDisplay :: "('v \<Rightarrow> jsstring) \<Rightarrow> 'v cell option \<Rightarrow> jsstring" where
  "getDisplay str cell =
     (case cell of
        None \<Rightarrow> []
      | Some c \<Rightarrow>
          if cell_w c \<noteq> None \<and> cell_w c \<noteq> Some [] then the (cell_w c)
          else (case cell_v c of Some x \<Rightarrow> str x | None \<Rightarrow> []))"

definition columns :: "range \<Rightarrow> nat list" where
  "columns rg = [s_c rg ..< Suc (e_c rg)]"

definition data_rows :: "range \<Rightarrow> nat list" where
  "data_rows rg = [Suc (s_r rg) ..< Suc (e_r rg)]"

definition headerName :: "('v \<Rightarrow> jsstring) \<Rightarrow> 'v worksheet \<Rightarrow> range \<Rightarrow> nat \<Rightarrow> jsstring" where
  "headerName str worksheet rg c =
     (case cells worksheet (s_r rg, c) of
        Some cell \<Rightarrow>
          (let name = trim (getDisplay str (Some cell))
           in if name \<noteq> [] then name else js ''COL_'' @ decimal (c + 1))
      | None \<Rightarrow> js ''COL_'' @ decimal (c + 1))"

text \<open>
  \<open>headerMap\<close> is keyed by the column number: the list pairs every column of the
  extent, in order, with its name, and the row loop walks the same columns.
\<close>

definition headerMap :: "('v \<Rightarrow> jsstring) \<Rightarrow> 'v worksheet \<Rightarrow> range \<Rightarrow> (nat \<times> jsstring) list" where
  "headerMap str worksheet rg = map (\<lambda>c. (c, headerName str worksheet rg c)) (columns rg)"

text \<open>One turn of the inner loop: the state is \<open>(rowRecord, hasData)\<close>.\<close>

definition row_step ::
  "('v \<Rightarrow> jsstring) \<Rightarrow> 'v worksheet \<Rightarrow> nat \<Rightarrow> nat \<times> jsstring
     \<Rightarrow> jsstring jsobject \<times> bool \<Rightarrow> jsstring jsobject \<times> bool" where
  "row_step str worksheet r col acc =
     (let c = fst col; colName = snd col; rowRecord = fst acc; hasData = snd acc
      in case cells worksheet (r, c) of
           Some cell \<Rightarrow>
             (let text = getDisplay str (Some cell)
              in (obj_assign colName text rowRecord, (if text \<noteq> [] then True else hasData)))
         | None \<Rightarrow> (obj_assign colName [] rowRecord, hasData))"

definition row_loop ::
  "('v \<Rightarrow> jsstring) \<Rightarrow> 'v worksheet \<Rightarrow> (nat \<times> jsstring) list \<Rightarrow> nat
     \<Rightarrow> jsstring jsobject \<times> bool" where
  "row_loop str worksheet hm r = fold (row_step str worksheet r) hm ([], False)"

definition processExcelData :: "('v \<Rightarrow> jsstring) \<Rightarrow> 'v worksheet \<Rightarrow> jsstring jsobject list" where
  "processExcelData str worksheet =
     (let rg = decode_ref worksheet;
          hm = headerMap str worksheet rg
      in map fst (filter snd (map (row_loop str worksheet hm) (data_rows rg))))"

section \<open>XML assembly\<close>

datatype xml = Ele jsstring "xml list" | Txt jsstring

definition XML_ROOT_ELEMENT :: jsstring where
  "XML_ROOT_ELEMENT = js ''CALLREPORT''"

definition XML_HEADER_ELEMENT :: jsstring where
  "XML_HEADER_ELEMENT = js ''HEADER''"

definition XML_BODY_ELEMENT :: jsstring where
  "XML_BODY_ELEMENT = js ''BODY''"

definition XML_ROW_ELEMENT :: jsstring where
  "XML_ROW_ELEMENT = js ''CALLREPORT_DATA''"

text \<open>
  Every \<open>throw\<close> of the converter and of the cipher is a value. The converter throws
  plain \<open>Error\<close> objects told apart by their message; one constructor stands for each
  message template, with the interpolated texts as arguments.
\<close>

datatype error =
    InputFileNotFound jsstring
  | ExcelReadFailed jsstring
  | SheetNotFound jsstring
  | ExcelFileEmpty
  | HeaderFieldError jsstring jsstring
  | FileSystemError jsstring
  | CryptoError jsstring

text \<open>A caller-supplied header value: \<open>null\<close>, \<open>undefined\<close> or a proper value.\<close>

datatype 'v jsvalue = Null | Undefined | Val 'v

text \<open>
  The functions of the Node runtime and of the libraries (xlsx, xmlbuilder2, crypto,
  Buffer, fs, Date) that the code calls are parameters of the model:
  \<^item> \<open>String_of\<close>: \<open>String(x)\<close> on a raw cell value or a header value;
  \<^item> \<open>XLSX_readFile\<close>: the parse of a file's bytes, or the message it throws;
  \<^item> \<open>ele_error\<close>: the message with which \<open>ele(name)\<close> rejects an element name,
    \<open>None\<close> when it accepts it. The four element constants and every sanitized name are
    XML names, so only the header keys, which are not sanitized, are put to it;
  \<^item> \<open>xml_end\<close>: the pretty-printed serialization of the tree;
  \<^item> \<open>utf8_encode\<close>, \<open>utf8_decode\<close>: the bytes of a text file and back;
  \<^item> \<open>can_write\<close>: whether \<open>fs.writeFileSync\<close> succeeds at a path;
  \<^item> \<open>can_unlink\<close>: whether \<open>fs.unlinkSync\<close> succeeds on a file that exists
    (it throws on a locked file or without the permission);
  \<^item> \<open>pbkdf2Sync\<close>, \<open>randomBytes\<close>, \<open>cipher\<close>, \<open>decipher\<close>: key derivation, the
    random source (its argument is the byte count), and AES-256-CBC with key, IV and
    data, giving the result or the message thrown;
  \<^item> \<open>base64_encode\<close>, \<open>base64_decode\<close>: \<open>buf.toString('base64')\<close> and
    \<open>Buffer.from(s, 'base64')\<close>;
  \<^item> \<open>startTime\<close>, \<open>endTime\<close>: the two readings of \<open>Date.now()\<close>.
\<close>

record 'v runtime =
  String_of :: "'v \<Rightarrow> jsstring"
  XLSX_readFile :: "buffer \<Rightarrow> jsstring + (jsstring \<times> 'v worksheet) list"
  ele_error :: "jsstring \<Rightarrow> jsstring option"
  xml_end :: "xml \<Rightarrow> jsstring"
  utf8_encode :: "jsstring \<Rightarrow> buffer"
  utf8_decode :: "buffer \<Rightarrow> jsstring"
  can_write :: "jsstring \<Rightarrow> bool"
  can_unlink :: "jsstring \<Rightarrow> bool"
  pbkdf2Sync :: "jsstring \<Rightarrow> jsstring \<Rightarrow> nat \<Rightarrow> nat \<Rightarrow> buffer"
  randomBytes :: "nat \<Rightarrow> buffer"
  cipher :: "buffer \<Rightarrow> buffer \<Rightarrow> buffer \<Rightarrow> jsstring + buffer"
  decipher :: "buffer \<Rightarrow> buffer \<Rightarrow> buffer \<Rightarrow> jsstring + buffer"
  base64_encode :: "buffer \<Rightarrow> jsstring"
  base64_decode :: "jsstring \<Rightarrow> buffer"
  startTime :: int
  endTime :: int

text \<open>
  The loop of \<open>_createHeader\<close> over \<open>Object.entries(headerFields)\<close>: the result is
  the list of children appended to the header element, or the error thrown.
\<close>

fun header_children ::
  "'v runtime \<Rightarrow> (jsstring \<times> 'v jsvalue) list \<Rightarrow> error + xml list" where
  "header_children rt [] = Inr []"
| "header_children rt (field # rest) =
     (let tagName = replace_spaces (fst field)
      in case ele_error rt tagName of
           Some msg \<Rightarrow> Inl (HeaderFieldError (fst field) msg)
         | None \<Rightarrow>
             (let child = Ele tagName
                    [Txt (case snd field of Val x \<Rightarrow> String_of rt x | Null \<Rightarrow> [] | Undefined \<Rightarrow> [])]
              in case header_children rt rest of
                   Inl e \<Rightarrow> Inl e
                 | Inr cs \<Rightarrow> Inr (child # cs)))"

text \<open>
  \<open>_createHeader(root, headerFields)\<close> appends to the root; the model returns what it
  appends: nothing, or the one header element.
\<close>

definition createHeader :: "'v runtime \<Rightarrow> 'v jsvalue jsobject option \<Rightarrow> error + xml list" where
  "createHeader rt headerFields =
     (case headerFields of
        None \<Rightarrow> Inr []
      | Some hf \<Rightarrow>
          if length (obj_keys hf) = 0 then Inr []
          else (case header_children rt (obj_entries hf) of
                  Inl e \<Rightarrow> Inl e
                | Inr cs \<Rightarrow> Inr [Ele XML_HEADER_ELEMENT cs]))"

text \<open>\<open>_createDataSection(body, records)\<close>: the row elements appended to the body.\<close>

definition createDataSection :: "jsstring jsobject list \<Rightarrow> xml list" where
  "createDataSection records =
     map (\<lambda>record.
            Ele XML_ROW_ELEMENT
              (map (\<lambda>field. Ele (sanitizeXmlTag (Some (fst field))) [Txt (snd field)])
                   (obj_entries record)))
         records"

text \<open>The part of \<open>convert\<close> that builds the tree, from the root to the data section.\<close>

definition assemble ::
  "'v runtime \<Rightarrow> jsstring jsobject list \<Rightarrow> 'v jsvalue jsobject option \<Rightarrow> error + xml" where
  "assemble rt records headerFields =
     (case (if headerFields \<noteq> None \<and> length (obj_keys (the headerFields)) > 0
            then createHeader rt headerFields else Inr []) of
        Inl e \<Rightarrow> Inl e
      | Inr header \<Rightarrow>
          Inr (Ele XML_ROOT_ELEMENT
                 (header @ [Ele XML_BODY_ELEMENT (createDataSection records)])))"

section \<open>File system, audit trail and cipher\<close>

text \<open>
  The state that the calls thread: the files by path, and the records handed to the audit
  logger, oldest first. A conversion record keeps the input file, the final output path,
  the elapsed time, the row count, the columns, the sheet name and the encryption flag.
\<close>

datatype audit_event =
    ConversionEvent jsstring jsstring int nat "jsstring list" jsstring bool
  | SecurityEvent jsstring
  | ErrorEvent jsstring error

record state =
  files :: "jsstring \<rightharpoonup> buffer"
  audit :: "audit_event list"

definition log_event :: "audit_event \<Rightarrow> state \<Rightarrow> state" where
  "log_event ev st = st\<lparr>audit := audit st @ [ev]\<rparr>"

definition readFileSync :: "jsstring \<Rightarrow> state \<Rightarrow> error + buffer" where
  "readFileSync path st =
     (case files st path of None \<Rightarrow> Inl (FileSystemError path) | Some content \<Rightarrow> Inr content)"

definition writeFileSync :: "'v runtime \<Rightarrow> jsstring \<Rightarrow> buffer \<Rightarrow> state \<Rightarrow> error + state" where
  "writeFileSync rt path content st =
     (if can_write rt path then Inr (st\<lparr>files := (files st)(path \<mapsto> content)\<rparr>)
      else Inl (FileSystemError path))"

definition unlinkSync :: "'v runtime \<Rightarrow> jsstring \<Rightarrow> state \<Rightarrow> error + state" where
  "unlinkSync rt path st =
     (if files st path = None then Inl (FileSystemError path)
      else if can_unlink rt path then Inr (st\<lparr>files := (files st)(path := None)\<rparr>)
      else Inl (FileSystemError path))"

text \<open>The \<open>AESEncryption\<close> object and its constructor.\<close>

record aes =
  aes_key :: buffer
  aes_ivLength :: nat

definition AESEncryption :: "'v runtime \<Rightarrow> jsstring option \<Rightarrow> aes" where
  "AESEncryption rt ENCRYPTION_KEY =
     \<lparr>aes_key =
        pbkdf2Sync rt
          (case ENCRYPTION_KEY of
             Some k \<Rightarrow> if k \<noteq> [] then k else js ''default-key''
           | None \<Rightarrow> js ''default-key'')
          (js ''converter_x_fixed_salt'') 100000 32,
      aes_ivLength = 16\<rparr>"

datatype data = Buf buffer | Str jsstring

definition encryptData ::
  "'v runtime \<Rightarrow> aes \<Rightarrow> data \<Rightarrow> state \<Rightarrow> (error + jsstring) \<times> state" where
  "encryptData rt enc dat st =
     (let dataBuffer = (case dat of Buf b \<Rightarrow> b | Str t \<Rightarrow> utf8_encode rt t);
          iv = randomBytes rt (aes_ivLength enc)
      in case cipher rt (aes_key enc) iv dataBuffer of
           Inl msg \<Rightarrow>
             (Inl (CryptoError msg),
              log_event (ErrorEvent (js ''encrypt_data'') (CryptoError msg)) st)
         | Inr encrypted \<Rightarrow>
             (Inr (base64_encode rt (iv @ encrypted)),
              log_event (SecurityEvent (js ''encrypt_data'')) st))"

definition decryptData ::
  "'v runtime \<Rightarrow> aes \<Rightarrow> jsstring \<Rightarrow> state \<Rightarrow> (error + buffer) \<times> state" where
  "decryptData rt enc encryptedData st =
     (let encryptedBuffer = base64_decode rt encryptedData;
          iv = take (aes_ivLength enc) encryptedBuffer;
          ciphertext = drop (aes_ivLength enc) encryptedBuffer
      in case decipher rt (aes_key enc) iv ciphertext of
           Inl msg \<Rightarrow>
             (Inl (CryptoError msg),
              log_event (ErrorEvent (js ''decrypt_data'') (CryptoError msg)) st)
         | Inr decrypted \<Rightarrow>
             (Inr decrypted, log_event (SecurityEvent (js ''decrypt_data'')) st))"

definition encryptFile ::
  "'v runtime \<Rightarrow> aes \<Rightarrow> jsstring \<Rightarrow> jsstring \<Rightarrow> state \<Rightarrow> (error + unit) \<times> state" where
  "encryptFile rt enc inputPath outputPath st =
     (case readFileSync inputPath st of
        Inl e \<Rightarrow> (Inl e, log_event (ErrorEvent (js ''encrypt_file'') e) st)
      | Inr dat \<Rightarrow>
          (case encryptData rt enc (Buf dat) st of
             (Inl e, st1) \<Rightarrow> (Inl e, log_event (ErrorEvent (js ''encrypt_file'') e) st1)
           | (Inr encryptedData, st1) \<Rightarrow>
               (case writeFileSync rt outputPath (utf8_encode rt encryptedData) st1 of
                  Inl e \<Rightarrow> (Inl e, log_event (ErrorEvent (js ''encrypt_file'') e) st1)
                | Inr st2 \<Rightarrow> (Inr (), log_event (SecurityEvent (js ''encrypt_file'')) st2))))"

definition decryptFile ::
  "'v runtime \<Rightarrow> aes \<Rightarrow> jsstring \<Rightarrow> jsstring \<Rightarrow> state \<Rightarrow> (error + unit) \<times> state" where
  "decryptFile rt enc inputPath outputPath st =
     (case readFileSync inputPath st of
        Inl e \<Rightarrow> (Inl e, log_event (ErrorEvent (js ''decrypt_file'') e) st)
      | Inr bytes \<Rightarrow>
          (case decryptData rt enc (utf8_decode rt bytes) st of
             (Inl e, st1) \<Rightarrow> (Inl e, log_event (ErrorEvent (js ''decrypt_file'') e) st1)
           | (Inr decryptedData, st1) \<Rightarrow>
               (case writeFileSync rt outputPath decryptedData st1 of
                  Inl e \<Rightarrow> (Inl e, log_event (ErrorEvent (js ''decrypt_file'') e) st1)
                | Inr st2 \<Rightarrow> (Inr (), log_event (SecurityEvent (js ''decrypt_file'')) st2))))"

section \<open>Conversion\<close>

text \<open>
  \<open>convert\<close> follows in the order of its statements. A workbook is the list of its
  sheets by name, in order: \<open>SheetNames\<close> is the list of the names and \<open>Sheets\<close> the
  lookup. \<open>sheetName || workbook.SheetNames[0]\<close> takes the first sheet for an absent or
  empty name, and is \<open>undefined\<close> in a workbook without sheets.
\<close>

definition select_sheet ::
  "(jsstring \<times> 'v worksheet) list \<Rightarrow> jsstring option \<Rightarrow> error + jsstring \<times> 'v worksheet" where
  "select_sheet workbook sheetName =
     (let first = (case workbook of [] \<Rightarrow> None | sheet # _ \<Rightarrow> Some (fst sheet));
          sheetToProcess =
            (case sheetName of Some n \<Rightarrow> if n \<noteq> [] then Some n else first | None \<Rightarrow> first)
      in case sheetToProcess of
           None \<Rightarrow> Inl (SheetNotFound (js ''undefined''))
         | Some n \<Rightarrow>
             (case map_of workbook n of
                None \<Rightarrow> Inl (SheetNotFound n)
              | Some worksheet \<Rightarrow> Inr (n, worksheet)))"

definition load_worksheet ::
  "'v runtime \<Rightarrow> jsstring \<Rightarrow> jsstring option \<Rightarrow> state \<Rightarrow> error + jsstring \<times> 'v worksheet" where
  "load_worksheet rt inputFile sheetName st =
     (case files st inputFile of
        None \<Rightarrow> Inl (InputFileNotFound inputFile)
      | Some content \<Rightarrow>
          (case XLSX_readFile rt content of
             Inl msg \<Rightarrow> Inl (ExcelReadFailed msg)
           | Inr workbook \<Rightarrow> select_sheet workbook sheetName))"

definition extract_records :: "'v runtime \<Rightarrow> 'v worksheet \<Rightarrow> error + jsstring jsobject list" where
  "extract_records rt worksheet =
     (let rg = decode_ref worksheet
      in if e_r rg = 0 \<and> e_c rg = 0 \<and> cells worksheet (0, 0) = None then Inl ExcelFileEmpty
         else
           (let records = processExcelData (String_of rt) worksheet
            in if length records = 0 then Inl ExcelFileEmpty else Inr records))"

text \<open>From the start of the \<open>try\<close> block to \<open>fs.writeFileSync(outputFile, xmlContent)\<close>.\<close>

definition write_plaintext ::
  "'v runtime \<Rightarrow> jsstring \<Rightarrow> jsstring \<Rightarrow> 'v jsvalue jsobject option \<Rightarrow> jsstring option
     \<Rightarrow> state \<Rightarrow> error + (jsstring \<times> jsstring jsobject list) \<times> state" where
  "write_plaintext rt inputFile outputFile headerFields sheetName st =
     (case load_worksheet rt inputFile sheetName st of
        Inl e \<Rightarrow> Inl e
      | Inr (sheetToProcess, worksheet) \<Rightarrow>
          (case extract_records rt worksheet of
             Inl e \<Rightarrow> Inl e
           | Inr records \<Rightarrow>
               (case assemble rt records headerFields of
                  Inl e \<Rightarrow> Inl e
                | Inr root \<Rightarrow>
                    (let xmlContent = xml_end rt root
                     in case writeFileSync rt outputFile (utf8_encode rt xmlContent) st of
                          Inl e \<Rightarrow> Inl e
                        | Inr st1 \<Rightarrow> Inr ((sheetToProcess, records), st1)))))"

text \<open>The block \<open>if (encryptOutput) { ... }\<close>: the result is \<open>finalOutput\<close>.\<close>

definition encrypt_output ::
  "'v runtime \<Rightarrow> aes \<Rightarrow> jsstring \<Rightarrow> bool \<Rightarrow> state \<Rightarrow> (error + jsstring) \<times> state" where
  "encrypt_output rt enc outputFile encryptOutput st =
     (if encryptOutput then
        (let encryptedOutput = replace_first (js ''.xml'') (js ''.xml.enc'') outputFile
         in case encryptFile rt enc outputFile encryptedOutput st of
              (Inl e, st1) \<Rightarrow> (Inl e, st1)
            | (Inr u, st1) \<Rightarrow>
                (case unlinkSync rt outputFile st1 of
                   Inl e \<Rightarrow> (Inl e, st1)
                 | Inr st2 \<Rightarrow> (Inr encryptedOutput, st2)))
      else (Inr outputFile, st))"

record summary =
  success :: bool
  rowsProcessed :: nat
  conversionTime :: int

definition convert_try ::
  "'v runtime \<Rightarrow> aes \<Rightarrow> jsstring \<Rightarrow> jsstring \<Rightarrow> 'v jsvalue jsobject option \<Rightarrow> jsstring option
     \<Rightarrow> bool \<Rightarrow> state \<Rightarrow> (error + summary) \<times> state" where
  "convert_try rt enc inputFile outputFile headerFields sheetName encryptOutput st =
     (case write_plaintext rt inputFile outputFile headerFields sheetName st of
        Inl e \<Rightarrow> (Inl e, st)
      | Inr ((sheetToProcess, records), st1) \<Rightarrow>
          (let cols = (if length records > 0 then obj_keys (hd records) else [])
           in case encrypt_output rt enc outputFile encryptOutput st1 of
                (Inl e, st2) \<Rightarrow> (Inl e, st2)
              | (Inr finalOutput, st2) \<Rightarrow>
                  (let elapsed = endTime rt - startTime rt
                   in (Inr \<lparr>success = True, rowsProcessed = length records,
                             conversionTime = elapsed\<rparr>,
                       log_event
                         (ConversionEvent inputFile finalOutput elapsed (length records)
                            cols sheetToProcess encryptOutput)
                         st2))))"

text \<open>The \<open>catch\<close> block records the error and throws it again.\<close>

definition convert ::
  "'v runtime \<Rightarrow> aes \<Rightarrow> jsstring \<Rightarrow> jsstring \<Rightarrow> 'v jsvalue jsobject option \<Rightarrow> jsstring option
     \<Rightarrow> bool \<Rightarrow> state \<Rightarrow> (error + summary) \<times> state" where
  "convert rt enc inputFile outputFile headerFields sheetName encryptOutput st =
     (case convert_try rt enc inputFile outputFile headerFields sheetName encryptOutput st of
        (Inl e, st1) \<Rightarrow> (Inl e, log_event (ErrorEvent (js ''convert_excel_to_xml'') e) st1)
      | (Inr res, st1) \<Rightarrow> (Inr res, st1))"

text \<open>
  The \<open>finally\<close> block of the route \<open>POST /convert\<close>, which runs after \<open>convert\<close>
  on every exit: it removes the uploaded input file and nothing else. \<open>inputPath\<close> is
  \<open>None\<close> while it is \<open>null\<close>.
\<close>

definition route_finally ::
  "'v runtime \<Rightarrow> jsstring option \<Rightarrow> state \<Rightarrow> (error + unit) \<times> state" where
  "route_finally rt inputPath st =
     (case inputPath of
        None \<Rightarrow> (Inr (), st)
      | Some p \<Rightarrow>
          if p \<noteq> [] \<and> files st p \<noteq> None
          then (case unlinkSync rt p st of Inl e \<Rightarrow> (Inl e, st) | Inr st1 \<Rightarrow> (Inr (), st1))
          else (Inr (), st))"

section \<open>Observations\<close>

text \<open>What the sanitizer returns: a non-empty name over the tag characters.\<close>

definition valid_tag :: "jsstring \<Rightarrow> bool" where
  "valid_tag t \<longleftrightarrow> list_all is_tag_char t \<and> starts_with_letter_or_underscore t"

text \<open>Reading a tree: the name of an element, its children, its children of a given name.\<close>

fun ele_name :: "xml \<Rightarrow> jsstring option" where
  "ele_name (Ele n cs) = Some n"
| "ele_name (Txt t) = None"

fun children :: "xml \<Rightarrow> xml list" where
  "children (Ele n cs) = cs"
| "children (Txt t) = []"

definition child_elements :: "jsstring \<Rightarrow> xml \<Rightarrow> xml list" where
  "child_elements n x = filter (\<lambda>c. ele_name c = Some n) (children x)"

text \<open>
  The text of a cell in the words of the specification, with the proviso that the code
  makes: the display value when the cell has one that is not empty, else the string form
  of the raw value, else the empty string. A cell that is missing has neither.
\<close>

definition display_text :: "('v \<Rightarrow> jsstring) \<Rightarrow> 'v cell option \<Rightarrow> jsstring" where
  "display_text str cell =
     (case cell of
        None \<Rightarrow> []
      | Some c \<Rightarrow>
          (case cell_w c of
             Some (ch # t) \<Rightarrow> ch # t
           | _ \<Rightarrow> (case cell_v c of Some x \<Rightarrow> str x | None \<Rightarrow> [])))"

text \<open>The number \<open>h\<close> of header fields the caller supplies.\<close>

definition header_field_count :: "'v jsvalue jsobject option \<Rightarrow> nat" where
  "header_field_count headerFields =
     (case headerFields of None \<Rightarrow> 0 | Some hf \<Rightarrow> length (obj_keys hf))"

section \<open>Example inputs\<close>

text \<open>
  Concrete sheets on which the theorems below are run. Raw values are natural numbers
  here, and \<open>String\<close> renders them in decimal.
\<close>

definition text_cell :: "string \<Rightarrow> nat cell" where
  "text_cell s = \<lparr>cell_w = Some (js s), cell_v = None\<rparr>"

text \<open>The sheet of the end-to-end scenario: two columns, two data rows.\<close>

definition demo_sheet :: "nat worksheet" where
  "demo_sheet =
     \<lparr>ref = Some \<lparr>s_r = 0, s_c = 0, e_r = 2, e_c = 1\<rparr>,
      cells = map_of
        [((0, 0), text_cell ''ID''), ((0, 1), text_cell ''Amount''),
         ((1, 0), text_cell ''1''), ((1, 1), text_cell ''10.50''),
         ((2, 0), text_cell ''2''), ((2, 1), text_cell ''20.00'')]\<rparr>"

text \<open>
  Three columns that share one name: a literal \<open>COL_2\<close>, a missing header cell in
  the second column, and \<open>COL_2\<close> again with blanks around it.
\<close>

definition dup_sheet :: "nat worksheet" where
  "dup_sheet =
     \<lparr>ref = Some \<lparr>s_r = 0, s_c = 0, e_r = 1, e_c = 2\<rparr>,
      cells = map_of
        [((0, 0), text_cell ''COL_2''), ((0, 2), text_cell '' COL_2 ''),
         ((1, 0), text_cell ''a''), ((1, 1), \<lparr>cell_w = Some [], cell_v = Some 7\<rparr>),
         ((1, 2), text_cell ''c'')]\<rparr>"

text \<open>A header row and nothing below it.\<close>

definition header_only_sheet :: "nat worksheet" where
  "header_only_sheet =
     \<lparr>ref = Some \<lparr>s_r = 0, s_c = 0, e_r = 0, e_c = 1\<rparr>,
      cells = map_of [((0, 0), text_cell ''ID''), ((0, 1), text_cell ''Amount'')]\<rparr>"

text \<open>One cell whose raw value is the number 7 and whose display text is \<open>007\<close>.\<close>

definition zip_sheet :: "nat worksheet" where
  "zip_sheet =
     \<lparr>ref = Some \<lparr>s_r = 0, s_c = 0, e_r = 1, e_c = 0\<rparr>,
      cells = map_of
        [((0, 0), text_cell ''Zip''),
         ((1, 0), \<lparr>cell_w = Some (js ''007''), cell_v = Some 7\<rparr>)]\<rparr>"


text \<open>One cell whose display text is present and empty and whose raw value is 7.\<close>

definition blank_display_sheet :: "nat worksheet" where
  "blank_display_sheet =
     \<lparr>ref = Some \<lparr>s_r = 0, s_c = 0, e_r = 1, e_c = 0\<rparr>,
      cells = map_of
        [((0, 0), text_cell ''Qty''),
         ((1, 0), \<lparr>cell_w = Some [], cell_v = Some 7\<rparr>)]\<rparr>"

text \<open>
  A runtime for the examples. Its workbook holds the first three sheets; element names are
  accepted when they are names the sanitizer could return; the serializer prints tags
  without indentation; text files and the text encoding of buffers map a byte to the
  character of the same code; the cipher shifts every byte by one and asks for a 16-byte
  IV to decrypt; writing succeeds at every path but the empty one, and every file can be
  removed.
\<close>

fun render :: "xml \<Rightarrow> jsstring" where
  "render (Txt t) = t"
| "render (Ele n cs) =
     js ''<'' @ n @ js ''>'' @ concat (map render cs) @ js ''</'' @ n @ js ''>''"

definition demo_workbook :: "(jsstring \<times> nat worksheet) list" where
  "demo_workbook =
     [(js ''Sheet1'', demo_sheet), (js ''Empty'', header_only_sheet), (js ''Dup'', dup_sheet)]"

definition demo_rt :: "nat runtime" where
  "demo_rt =
     \<lparr>String_of = decimal,
      XLSX_readFile = (\<lambda>bytes. if bytes = [] then Inl (js ''empty file'') else Inr demo_workbook),
      ele_error = (\<lambda>name. if valid_tag name then None else Some (js ''invalid name'')),
      xml_end = render,
      utf8_encode = map ucast,
      utf8_decode = map ucast,
      can_write = (\<lambda>path. path \<noteq> []),
      can_unlink = (\<lambda>path. True),
      pbkdf2Sync = (\<lambda>secret salt iterations keylen. replicate keylen 0),
      randomBytes = (\<lambda>n. replicate n 7),
      cipher = (\<lambda>k iv d. Inr (map (\<lambda>b. b + 1) d)),
      decipher = (\<lambda>k iv d. if length iv = 16 then Inr (map (\<lambda>b. b - 1) d)
                             else Inl (js ''Invalid IV length'')),
      base64_encode = map ucast,
      base64_decode = map ucast,
      startTime = 1000,
      endTime = 1042\<rparr>"

text \<open>The same runtime with a cipher that throws.\<close>

definition failing_rt :: "nat runtime" where
  "failing_rt = demo_rt\<lparr>cipher := (\<lambda>k iv d. Inl (js ''cipher failure''))\<rparr>"

text \<open>The same runtime on a file system that refuses to remove a file.\<close>

definition locked_rt :: "nat runtime" where
  "locked_rt = demo_rt\<lparr>can_unlink := (\<lambda>path. False)\<rparr>"

definition demo_state :: state where
  "demo_state = \<lparr>files = [js ''in.xlsx'' \<mapsto> [80, 75]], audit = []\<rparr>"

definition demo_header :: "nat jsvalue jsobject" where
  "demo_header = [(js ''Bank Code'', Val 12), (js ''Period'', Null)]"

text \<open>The document expected for the example sheet under the example header.\<close>

definition demo_doc :: xml where
  "demo_doc =
     Ele (js ''CALLREPORT'')
       [Ele (js ''HEADER'')
          [Ele (js ''Bank_Code'') [Txt (js ''12'')], Ele (js ''Period'') [Txt []]],
        Ele (js ''BODY'')
          [Ele (js ''CALLREPORT_DATA'')
             [Ele (js ''ID'') [Txt (js ''1'')], Ele (js ''Amount'') [Txt (js ''10.50'')]],
           Ele (js ''CALLREPORT_DATA'')
             [Ele (js ''ID'') [Txt (js ''2'')], Ele (js ''Amount'') [Txt (js ''20.00'')]]]]"

section \<open>The tag sanitizer\<close>

lemmas char_defs = js_def is_space_def is_letter_def is_digit_def is_tag_char_def
  starts_with_letter_or_underscore_def trim_def

lemma tag_char_not_space: "is_tag_char c \<Longrightarrow> \<not> is_space c"
  by (auto simp: is_tag_char_def is_space_def is_letter_def is_digit_def)

lemma trim_no_space:
  assumes "\<forall>c\<in>set s. \<not> is_space c"
  shows "trim s = s"
proof -
  have "dropWhile is_space s = s"
    using assms by (cases s) auto
  moreover have "dropWhile is_space (rev s) = rev s"
    using assms by (cases "rev s") (auto simp: in_set_conv_decomp)
  ultimately show ?thesis
    by (simp add: trim_def)
qed

lemma replace_spaces_no_space: "\<forall>c\<in>set s. \<not> is_space c \<Longrightarrow> replace_spaces s = s"
  by (induction s) auto

lemma sanitize_valid_id:
  assumes "valid_tag t"
  shows "sanitizeXmlTag (Some t) = t"
proof -
  from assms have ne: "t \<noteq> []"
    by (auto simp: valid_tag_def starts_with_letter_or_underscore_def)
  from assms have ns: "\<forall>c\<in>set t. \<not> is_space c"
    by (auto simp: valid_tag_def list_all_iff tag_char_not_space)
  from assms have f: "filter is_tag_char t = t"
    by (auto simp: valid_tag_def list_all_iff)
  from assms have st: "starts_with_letter_or_underscore t"
    by (simp add: valid_tag_def)
  show ?thesis
    using ne st
    by (simp add: sanitizeXmlTag_def trim_no_space[OF ns] replace_spaces_no_space[OF ns] f Let_def)
qed

lemma valid_EMPTY_TAG: "valid_tag (js ''EMPTY_TAG'')"
  by (simp add: valid_tag_def char_defs)

lemma valid_sanitize: "valid_tag (sanitizeXmlTag x)"
proof (cases x)
  case None
  then show ?thesis
    by (simp add: sanitizeXmlTag_def valid_EMPTY_TAG)
next
  case (Some t0)
  show ?thesis
  proof (cases "t0 = []")
    case True
    with Some show ?thesis
      by (simp add: sanitizeXmlTag_def valid_EMPTY_TAG)
  next
    case False
    define u where "u = filter is_tag_char (replace_spaces (trim t0))"
    have all: "list_all is_tag_char u"
      by (simp add: u_def list_all_iff)
    show ?thesis
    proof (cases "starts_with_letter_or_underscore u")
      case True
      then have "u \<noteq> []"
        by (auto simp: starts_with_letter_or_underscore_def)
      with True all Some False show ?thesis
        by (simp add: sanitizeXmlTag_def Let_def u_def[symmetric] valid_tag_def)
    next
      case starts: False
      have "valid_tag (95 # u)"
        using all by (simp add: valid_tag_def starts_with_letter_or_underscore_def is_tag_char_def)
      with starts Some False show ?thesis
        by (simp add: sanitizeXmlTag_def Let_def u_def[symmetric])
    qed
  qed
qed

text \<open>The fallback after step 4 is never taken: an emptied string comes back as \<open>_\<close>.\<close>

lemma sanitize_emptied:
  assumes "t0 \<noteq> []" and "filter is_tag_char (replace_spaces (trim t0)) = []"
  shows "sanitizeXmlTag (Some t0) = [95]"
  using assms by (simp add: sanitizeXmlTag_def starts_with_letter_or_underscore_def)

text \<open>
  C3. A string that step 3 empties should come back as \<open>EMPTY_TAG\<close>. The code tests
  for the empty string only after it has put the underscore in front, so the fallback is
  never taken: \<open>!!!\<close> is emptied by step 3 and comes back as \<open>_\<close>.
\<close>

theorem sanitize_emptied_gives_underscore:
  "filter is_tag_char (replace_spaces (trim (js ''!!!''))) = []
   \<and> sanitizeXmlTag (Some (js ''!!!'')) = js ''_''
   \<and> sanitizeXmlTag (Some (js ''!!!'')) \<noteq> js ''EMPTY_TAG''"
  by (simp add: sanitizeXmlTag_def char_defs)

text \<open>
  C8. The sanitizer is idempotent: sanitizing a sanitized name, whatever the first
  argument was (absent, empty or any string), gives the same name again.
\<close>

theorem sanitize_idempotent:
  "sanitizeXmlTag (Some (sanitizeXmlTag x)) = sanitizeXmlTag x"
  by (rule sanitize_valid_id[OF valid_sanitize])

theorem sanitize_idempotent_witness:
  "sanitizeXmlTag (Some (sanitizeXmlTag (Some (js '' 1 col!'')))) = js ''_1_col''
   \<and> sanitizeXmlTag (Some (js '' 1 col!'')) = js ''_1_col''"
proof -
  have "sanitizeXmlTag (Some (js '' 1 col!'')) = js ''_1_col''"
    by (simp add: sanitizeXmlTag_def char_defs)
  with sanitize_idempotent[of "Some (js '' 1 col!'')"] show ?thesis
    by simp
qed

section \<open>Cell extraction\<close>


lemma set_obj_entries: "set (obj_entries obj) = set obj"
  by (auto simp: obj_entries_def)

lemma distinct_obj_entries:
  assumes "distinct (map fst obj)"
  shows "distinct (map fst (obj_entries obj))"
proof -
  from assms have d: "distinct obj" and i: "inj_on fst (set obj)"
    by (simp_all add: distinct_map)
  have "distinct (obj_entries obj)"
    using d by (auto simp: obj_entries_def)
  with i show ?thesis
    by (simp add: distinct_map set_obj_entries)
qed

lemma map_of_obj_entries:
  assumes "distinct (map fst obj)"
  shows "map_of (obj_entries obj) = map_of obj"
  using assms distinct_obj_entries[OF assms]
  by (simp add: map_of_inject_set set_obj_entries)

text \<open>
  The record of a row is built by assignments alone, one per column, and the assignments
  to \<open>__proto__\<close> leave no trace.
\<close>

lemma fst_row_fold:
  "fst (fold (row_step str ws r) hm acc) =
   fold (\<lambda>col. obj_assign (snd col) (getDisplay str (cells ws (r, fst col)))) hm (fst acc)"
  by (induction hm arbitrary: acc)
     (auto simp: row_step_def Let_def getDisplay_def split: option.splits)

lemma assign_fold_filter:
  "fold (\<lambda>col. obj_assign (snd col) (f col)) hm obj =
   fold (\<lambda>col. AList.update (snd col) (f col)) (filter (\<lambda>col. snd col \<noteq> js ''__proto__'') hm) obj"
  by (induction hm arbitrary: obj) (simp_all add: obj_assign_def)

lemma filter_name_proper:
  assumes "n \<noteq> js ''__proto__''"
  shows "filter (\<lambda>col. snd col = n) (filter (\<lambda>col. snd col \<noteq> js ''__proto__'') hm)
         = filter (\<lambda>col. snd col = n) hm"
  using assms by (induction hm) auto


lemma distinct_update_fold:
  "distinct (map fst obj) \<Longrightarrow>
   distinct (map fst (fold (\<lambda>col. AList.update (snd col) (f col)) hm obj))"
  by (induction hm arbitrary: obj) (auto simp: distinct_update)

text \<open>The last assignment to a key is the one that stays.\<close>

lemma map_of_update_fold:
  "map_of (fold (\<lambda>col. AList.update (snd col) (f col)) hm obj) n =
     (if n \<in> snd ` set hm then Some (f (last (filter (\<lambda>col. snd col = n) hm)))
      else map_of obj n)"
proof (induction hm arbitrary: obj)
  case Nil
  then show ?case
    by simp
next
  case (Cons col hm)
  show ?case
  proof (cases "n \<in> snd ` set hm")
    case True
    then have "filter (\<lambda>col. snd col = n) hm \<noteq> []"
      by (auto simp: filter_empty_conv)
    with True Cons show ?thesis
      by simp
  next
    case False
    then have "filter (\<lambda>col. snd col = n) hm = []"
      by (auto simp: filter_empty_conv)
    with False Cons show ?thesis
      by (auto simp: update_conv')
  qed
qed



lemma row_record_distinct: "distinct (map fst (fst (row_loop str ws hm r)))"
  by (simp add: row_loop_def fst_row_fold assign_fold_filter distinct_update_fold)


lemma row_record_lookup:
  assumes "c \<in> set (columns rg)" and "headerName str ws rg c \<noteq> js ''__proto__''"
  shows "map_of (fst (row_loop str ws (headerMap str ws rg) r)) (headerName str ws rg c) =
         Some (getDisplay str (cells ws
           (r, last (filter (\<lambda>c'. headerName str ws rg c' = headerName str ws rg c)
                       (columns rg)))))"
proof -
  let ?n = "headerName str ws rg c"
  let ?hm = "headerMap str ws rg"
  let ?kept = "filter (\<lambda>col. snd col \<noteq> js ''__proto__'') ?hm"
  have mem: "?n \<in> snd ` set ?kept"
    using assms by (auto simp: headerMap_def image_iff)
  have fl: "filter (\<lambda>col. snd col = ?n) ?kept
            = map (\<lambda>c. (c, headerName str ws rg c))
                (filter (\<lambda>c'. headerName str ws rg c' = ?n) (columns rg))"
    unfolding filter_name_proper[OF assms(2)]
    by (simp add: headerMap_def filter_map comp_def)
  have ne: "filter (\<lambda>c'. headerName str ws rg c' = ?n) (columns rg) \<noteq> []"
    using assms(1) by (auto simp: filter_empty_conv)
  have "map_of (fold (\<lambda>col. AList.update (snd col) (getDisplay str (cells ws (r, fst col))))
                  ?kept []) ?n
        = Some (getDisplay str (cells ws (r, fst (last (filter (\<lambda>col. snd col = ?n) ?kept)))))"
    using mem by (simp add: map_of_update_fold del: filter_filter)
  then show ?thesis
    using ne
    by (simp add: row_loop_def fst_row_fold assign_fold_filter fl last_map del: filter_filter)
qed

text \<open>In a list in ascending order, the last element with a property is the one that no later one shares it with.\<close>

lemma last_filter_rightmost:
  assumes "sorted_wrt (<) xs" and "c \<in> set xs" and "P c"
    and "\<forall>c'\<in>set xs. c < c' \<longrightarrow> \<not> P c'"
  shows "last (filter P xs) = (c::nat)"
  using assms
proof (induction xs)
  case Nil
  then show ?case
    by simp
next
  case (Cons x xs)
  show ?case
  proof (cases "x = c")
    case True
    with Cons.prems have "filter P xs = []"
      by (auto simp: filter_empty_conv)
    with True Cons.prems show ?thesis
      by simp
  next
    case False
    with Cons.prems have mem: "c \<in> set xs"
      by simp
    with Cons.prems have ne: "filter P xs \<noteq> []"
      by (auto simp: filter_empty_conv)
    from Cons.IH[OF _ mem] Cons.prems have "last (filter P xs) = c"
      by simp
    with ne show ?thesis
      by simp
  qed
qed

lemma snd_row_fold:
  "snd (fold (row_step str ws r) hm acc)
     = (snd acc \<or> (\<exists>col\<in>set hm. getDisplay str (cells ws (r, fst col)) \<noteq> []))"
  by (induction hm arbitrary: acc)
     (auto simp: row_step_def Let_def getDisplay_def split: option.splits)

lemma getDisplay_display_text: "getDisplay str cell = display_text str cell"
  by (auto simp: getDisplay_def display_text_def split: option.splits list.splits)


lemma processExcelData_member:
  "record \<in> set (processExcelData str ws) \<Longrightarrow>
   \<exists>r\<in>set (data_rows (decode_ref ws)).
      record = fst (row_loop str ws (headerMap str ws (decode_ref ws)) r)"
  by (auto simp: processExcelData_def Let_def)

text \<open>The extraction run on the example sheets, step by step.\<close>

lemma decimal_digit: "n < 10 \<Longrightarrow> decimal n = [of_nat (48 + n)]"
  by (subst decimal.simps) simp

lemma processExcelData_eval:
  assumes "decode_ref ws = rg" and "headerMap str ws rg = hm"
    and "map (row_loop str ws hm) (data_rows rg) = rows"
  shows "processExcelData str ws = map fst (filter snd rows)"
  using assms by (simp add: processExcelData_def Let_def)

lemma headerMap_eval:
  assumes "columns rg = cs" and "map (headerName str ws rg) cs = names"
  shows "headerMap str ws rg = zip cs names"
  using assms by (auto simp: headerMap_def intro!: nth_equalityI)







lemma demo_range: "decode_ref demo_sheet = \<lparr>s_r = 0, s_c = 0, e_r = 2, e_c = 1\<rparr>"
  by (simp add: demo_sheet_def decode_ref_def)

lemma demo_cells:
  "cells demo_sheet = map_of
     [((0, 0), text_cell ''ID''), ((0, 1), text_cell ''Amount''),
      ((1, 0), text_cell ''1''), ((1, 1), text_cell ''10.50''),
      ((2, 0), text_cell ''2''), ((2, 1), text_cell ''20.00'')]"
  by (simp add: demo_sheet_def)

lemma demo_names:
  "map (headerName decimal demo_sheet \<lparr>s_r = 0, s_c = 0, e_r = 2, e_c = 1\<rparr>) [0, 1]
     = [js ''ID'', js ''Amount'']"
  by (simp add: demo_cells headerName_def text_cell_def getDisplay_def char_defs)

lemma demo_headerMap:
  "headerMap decimal demo_sheet \<lparr>s_r = 0, s_c = 0, e_r = 2, e_c = 1\<rparr>
     = [(0, js ''ID''), (1, js ''Amount'')]"
  using headerMap_eval[OF _ demo_names] by (simp add: columns_def upt_rec)

lemma demo_rows:
  "map (row_loop decimal demo_sheet [(0, js ''ID''), (1, js ''Amount'')])
     (data_rows \<lparr>s_r = 0, s_c = 0, e_r = 2, e_c = 1\<rparr>)
   = [([(js ''ID'', js ''1''), (js ''Amount'', js ''10.50'')], True),
      ([(js ''ID'', js ''2''), (js ''Amount'', js ''20.00'')], True)]"
  by (simp add: data_rows_def upt_rec row_loop_def row_step_def obj_assign_def demo_cells
      text_cell_def getDisplay_def js_def)

lemma demo_records:
  "processExcelData decimal demo_sheet =
     [[(js ''ID'', js ''1''), (js ''Amount'', js ''10.50'')],
      [(js ''ID'', js ''2''), (js ''Amount'', js ''20.00'')]]"
  using processExcelData_eval[OF demo_range demo_headerMap demo_rows] by simp

lemma header_only_records: "processExcelData decimal header_only_sheet = []"
  by (simp add: processExcelData_def header_only_sheet_def decode_ref_def data_rows_def)

lemma zip_range: "decode_ref zip_sheet = \<lparr>s_r = 0, s_c = 0, e_r = 1, e_c = 0\<rparr>"
  by (simp add: zip_sheet_def decode_ref_def)

lemma zip_cells:
  "cells zip_sheet = map_of
     [((0, 0), text_cell ''Zip''),
      ((1, 0), \<lparr>cell_w = Some (js ''007''), cell_v = Some 7\<rparr>)]"
  by (simp add: zip_sheet_def)

lemma zip_names:
  "map (headerName decimal zip_sheet \<lparr>s_r = 0, s_c = 0, e_r = 1, e_c = 0\<rparr>) [0] = [js ''Zip'']"
  by (simp add: zip_cells headerName_def text_cell_def getDisplay_def char_defs)

lemma zip_headerMap:
  "headerMap decimal zip_sheet \<lparr>s_r = 0, s_c = 0, e_r = 1, e_c = 0\<rparr> = [(0, js ''Zip'')]"
  using headerMap_eval[OF _ zip_names] by (simp add: columns_def)

lemma zip_rows:
  "map (row_loop decimal zip_sheet [(0, js ''Zip'')])
     (data_rows \<lparr>s_r = 0, s_c = 0, e_r = 1, e_c = 0\<rparr>)
   = [([(js ''Zip'', js ''007'')], True)]"
  by (simp add: data_rows_def row_loop_def row_step_def obj_assign_def zip_cells text_cell_def
      getDisplay_def js_def)

lemma zip_records: "processExcelData decimal zip_sheet = [[(js ''Zip'', js ''007'')]]"
  using processExcelData_eval[OF zip_range zip_headerMap zip_rows] by simp







lemma blank_display_range:
  "decode_ref blank_display_sheet = \<lparr>s_r = 0, s_c = 0, e_r = 1, e_c = 0\<rparr>"
  by (simp add: blank_display_sheet_def decode_ref_def)

lemma blank_display_cells:
  "cells blank_display_sheet = map_of
     [((0, 0), text_cell ''Qty''),
      ((1, 0), \<lparr>cell_w = Some [], cell_v = Some 7\<rparr>)]"
  by (simp add: blank_display_sheet_def)

lemma blank_display_names:
  "map (headerName decimal blank_display_sheet \<lparr>s_r = 0, s_c = 0, e_r = 1, e_c = 0\<rparr>) [0]
     = [js ''Qty'']"
  by (simp add: blank_display_cells headerName_def text_cell_def getDisplay_def char_defs)

lemma blank_display_headerMap:
  "headerMap decimal blank_display_sheet \<lparr>s_r = 0, s_c = 0, e_r = 1, e_c = 0\<rparr>
     = [(0, js ''Qty'')]"
  using headerMap_eval[OF _ blank_display_names] by (simp add: columns_def)

lemma blank_display_rows:
  "map (row_loop decimal blank_display_sheet [(0, js ''Qty'')])
     (data_rows \<lparr>s_r = 0, s_c = 0, e_r = 1, e_c = 0\<rparr>)
   = [([(js ''Qty'', js ''7'')], True)]"
  by (simp add: data_rows_def row_loop_def row_step_def obj_assign_def blank_display_cells
      getDisplay_def decimal_digit js_def)

lemma blank_display_records:
  "processExcelData decimal blank_display_sheet = [[(js ''Qty'', js ''7'')]]"
  using processExcelData_eval[OF blank_display_range blank_display_headerMap blank_display_rows]
  by simp

text \<open>
  C6 (as amended). Take a column of the extent whose header name is not \<open>__proto__\<close>
  and is not the name of a column further right. For every data row with some text, the
  row's record is among the extracted records, and every extracted record comes from such
  a row; under the column's name the record holds the text of the row's cell in that
  column: its display value when the cell has one that is not empty, else the string form
  of its raw value, else the empty string.
\<close>

theorem record_holds_display_text:
  assumes "c \<in> set (columns (decode_ref ws))"
    and "headerName str ws (decode_ref ws) c \<noteq> js ''__proto__''"
    and "\<forall>c'\<in>set (columns (decode_ref ws)).
           c < c' \<longrightarrow> headerName str ws (decode_ref ws) c' \<noteq> headerName str ws (decode_ref ws) c"
  shows "(\<forall>r\<in>set (data_rows (decode_ref ws)).
            map_of (obj_entries (fst (row_loop str ws (headerMap str ws (decode_ref ws)) r)))
              (headerName str ws (decode_ref ws) c)
            = Some (display_text str (cells ws (r, c)))
            \<and> ((\<exists>col\<in>set (columns (decode_ref ws)). display_text str (cells ws (r, col)) \<noteq> [])
                 \<longrightarrow> fst (row_loop str ws (headerMap str ws (decode_ref ws)) r)
                       \<in> set (processExcelData str ws)))
       \<and> (\<forall>record\<in>set (processExcelData str ws).
            \<exists>r\<in>set (data_rows (decode_ref ws)).
              record = fst (row_loop str ws (headerMap str ws (decode_ref ws)) r)
              \<and> map_of (obj_entries record) (headerName str ws (decode_ref ws) c)
                  = Some (display_text str (cells ws (r, c))))"
proof -
  let ?rg = "decode_ref ws"
  let ?hm = "headerMap str ws ?rg"
  have rightmost:
    "last (filter (\<lambda>c'. headerName str ws ?rg c' = headerName str ws ?rg c) (columns ?rg)) = c"
  proof (rule last_filter_rightmost)
    show "sorted_wrt (<) (columns ?rg)"
      unfolding columns_def by (rule sorted_wrt_upt)
    show "c \<in> set (columns ?rg)"
      by (rule assms(1))
    show "headerName str ws ?rg c = headerName str ws ?rg c"
      by (rule refl)
    show "\<forall>c'\<in>set (columns ?rg).
            c < c' \<longrightarrow> \<not> headerName str ws ?rg c' = headerName str ws ?rg c"
      using assms(3) by blast
  qed
  have lookup: "map_of (obj_entries (fst (row_loop str ws ?hm r))) (headerName str ws ?rg c)
                = Some (display_text str (cells ws (r, c)))" for r
    using row_record_lookup[OF assms(1,2), of r]
    by (simp add: map_of_obj_entries[OF row_record_distinct] rightmost getDisplay_display_text)
  have kept: "fst (row_loop str ws ?hm r) \<in> set (processExcelData str ws)"
    if "r \<in> set (data_rows ?rg)"
      and "\<exists>col\<in>set (columns ?rg). display_text str (cells ws (r, col)) \<noteq> []" for r
  proof -
    from that(2) have "snd (row_loop str ws ?hm r)"
      by (auto simp: row_loop_def snd_row_fold headerMap_def getDisplay_display_text)
    with that(1) show ?thesis
      by (force simp: processExcelData_def Let_def)
  qed
  have from_row: "\<exists>r\<in>set (data_rows ?rg).
                    rcd = fst (row_loop str ws ?hm r)
                    \<and> map_of (obj_entries rcd) (headerName str ws ?rg c)
                        = Some (display_text str (cells ws (r, c)))"
    if "rcd \<in> set (processExcelData str ws)" for rcd
    using processExcelData_member[OF that] lookup by auto
  from lookup kept from_row show ?thesis
    by blast
qed

text \<open>
  The claim C6 as it stands fails: the cell of this sheet has a display value, the empty
  string, and a raw value 7, and its record holds \<open>7\<close>, not the display value.
\<close>

theorem empty_display_text_counterexample:
  "cells blank_display_sheet (1, 0) = Some \<lparr>cell_w = Some [], cell_v = Some 7\<rparr>
   \<and> processExcelData decimal blank_display_sheet = [[(js ''Qty'', js ''7'')]]
   \<and> js ''7'' \<noteq> []"
  using blank_display_records by (simp add: blank_display_cells js_def)

theorem record_holds_display_text_witness:
  "(columns (decode_ref zip_sheet) = [0]
    \<and> data_rows (decode_ref zip_sheet) = [1]
    \<and> headerName decimal zip_sheet (decode_ref zip_sheet) 0 = js ''Zip''
    \<and> js ''Zip'' \<noteq> js ''__proto__''
    \<and> cells zip_sheet (1, 0) = Some \<lparr>cell_w = Some (js ''007''), cell_v = Some 7\<rparr>
    \<and> decimal 7 = js ''7'')
   \<and> processExcelData decimal zip_sheet = [[(js ''Zip'', js ''007'')]]
   \<and> map_of (obj_entries [(js ''Zip'', js ''007'')]) (js ''Zip'')
       = Some (display_text decimal (cells zip_sheet (1, 0)))
   \<and> display_text decimal (cells zip_sheet (1, 0)) = js ''007''"
proof -
  have cols: "columns (decode_ref zip_sheet) = [0]"
    by (simp add: zip_range columns_def)
  have rows: "data_rows (decode_ref zip_sheet) = [1]"
    by (simp add: zip_range data_rows_def)
  have name: "headerName decimal zip_sheet (decode_ref zip_sheet) 0 = js ''Zip''"
    using zip_names by (simp add: zip_range)
  have proper: "js ''Zip'' \<noteq> js ''__proto__''"
    by (simp add: js_def)
  have cell: "cells zip_sheet (1, 0) = Some \<lparr>cell_w = Some (js ''007''), cell_v = Some 7\<rparr>"
    by (simp add: zip_cells)
  have raw: "decimal 7 = js ''7''"
    by (simp add: decimal_digit js_def)
  have shown: "display_text decimal (cells zip_sheet (1, 0)) = js ''007''"
    by (simp add: zip_cells display_text_def js_def)
  have h1: "0 \<in> set (columns (decode_ref zip_sheet))"
    by (simp add: cols)
  have h2: "headerName decimal zip_sheet (decode_ref zip_sheet) 0 \<noteq> js ''__proto__''"
    by (simp add: name proper)
  have h3: "\<forall>c'\<in>set (columns (decode_ref zip_sheet)).
              0 < c' \<longrightarrow> headerName decimal zip_sheet (decode_ref zip_sheet) c'
                            \<noteq> headerName decimal zip_sheet (decode_ref zip_sheet) 0"
    by (simp add: cols)
  have member: "[(js ''Zip'', js ''007'')] \<in> set (processExcelData decimal zip_sheet)"
    by (simp add: zip_records)
  from record_holds_display_text[OF h1 h2 h3] member
  obtain r where "r \<in> set (data_rows (decode_ref zip_sheet))"
    and "map_of (obj_entries [(js ''Zip'', js ''007'')])
           (headerName decimal zip_sheet (decode_ref zip_sheet) 0)
         = Some (display_text decimal (cells zip_sheet (r, 0)))"
    by blast
  then have "map_of (obj_entries [(js ''Zip'', js ''007'')]) (js ''Zip'')
             = Some (display_text decimal (cells zip_sheet (1, 0)))"
    by (simp add: rows name)
  with cols rows name proper cell raw zip_records shown show ?thesis
    by blast
qed




section \<open>XML assembly\<close>

lemma array_index_non_digit: "\<not> is_digit c \<Longrightarrow> array_index (c # cs) = None"
  by (simp add: array_index_def)

lemma obj_entries_no_index:
  assumes "\<forall>p\<in>set obj. array_index (fst p) = None"
  shows "obj_entries obj = obj"
proof -
  have "filter (\<lambda>p. array_index (fst p) \<noteq> None) obj = []"
    using assms by (auto simp: filter_empty_conv)
  moreover have "filter (\<lambda>p. array_index (fst p) = None) obj = obj"
    using assms by (auto simp: filter_id_conv)
  ultimately show ?thesis
    by (simp add: obj_entries_def)
qed

lemma header_children_shape:
  "header_children rt entries = Inr cs \<Longrightarrow>
   cs = map (\<lambda>field. Ele (replace_spaces (fst field))
                [Txt (case snd field of Val x \<Rightarrow> String_of rt x | Null \<Rightarrow> [] | Undefined \<Rightarrow> [])])
          entries"
  by (induction entries arbitrary: cs) (auto simp: Let_def split: option.splits sum.splits)

lemma element_names_differ: "XML_HEADER_ELEMENT \<noteq> XML_BODY_ELEMENT"
  by (simp add: XML_HEADER_ELEMENT_def XML_BODY_ELEMENT_def js_def)

lemma assemble_cases:
  assumes "assemble rt records headerFields = Inr doc"
  shows "(header_field_count headerFields = 0
          \<and> doc = Ele XML_ROOT_ELEMENT [Ele XML_BODY_ELEMENT (createDataSection records)])
       \<or> (\<exists>hf. headerFields = Some hf \<and> 0 < header_field_count headerFields
            \<and> doc = Ele XML_ROOT_ELEMENT
                [Ele XML_HEADER_ELEMENT
                   (map (\<lambda>field. Ele (replace_spaces (fst field))
                           [Txt (case snd field of Val x \<Rightarrow> String_of rt x
                                 | Null \<Rightarrow> [] | Undefined \<Rightarrow> [])])
                      (obj_entries hf)),
                 Ele XML_BODY_ELEMENT (createDataSection records)])"
proof (cases headerFields)
  case None
  with assms show ?thesis
    by (auto simp: assemble_def header_field_count_def)
next
  case (Some hf)
  show ?thesis
  proof (cases "length (obj_keys hf) = 0")
    case True
    with Some assms show ?thesis
      by (auto simp: assemble_def header_field_count_def)
  next
    case False
    with Some assms obtain cs where
      cs: "header_children rt (obj_entries hf) = Inr cs"
      and doc: "doc = Ele XML_ROOT_ELEMENT
                  [Ele XML_HEADER_ELEMENT cs, Ele XML_BODY_ELEMENT (createDataSection records)]"
      by (auto simp: assemble_def createHeader_def split: sum.splits)
    from header_children_shape[OF cs] doc Some False show ?thesis
      by (simp add: header_field_count_def)
  qed
qed

text \<open>The assembly returns a document whenever every header key is accepted as a name.\<close>

lemma header_children_runs:
  "\<forall>field\<in>set entries. ele_error rt (replace_spaces (fst field)) = None \<Longrightarrow>
   \<exists>cs. header_children rt entries = Inr cs"
  by (induction entries) (auto simp: Let_def)

lemma assemble_runs:
  assumes "\<forall>field\<in>set (obj_entries hf). ele_error rt (replace_spaces (fst field)) = None"
  shows "\<exists>doc. assemble rt records (Some hf) = Inr doc"
  using header_children_runs[OF assms]
  by (auto simp: assemble_def createHeader_def)

text \<open>
  C4. In an assembled document the children of the root are the header elements followed
  by the body elements. There is one header element when \<open>h > 0\<close> and none when
  \<open>h = 0\<close>; the header element has \<open>h\<close> children, one per header field in the order
  of \<open>Object.entries\<close>, named by the key with white space replaced and holding the
  value's text. There is exactly one body element; it has one row element per record, in
  order, and the children of a row are the fields of its record in the record's field
  order, named by the sanitized field name and holding the field's text.
\<close>

theorem assembled_document_shape:
  assumes "assemble rt records headerFields = Inr doc"
  shows "ele_name doc = Some XML_ROOT_ELEMENT
       \<and> children doc
           = child_elements XML_HEADER_ELEMENT doc @ child_elements XML_BODY_ELEMENT doc
       \<and> length (child_elements XML_HEADER_ELEMENT doc)
           = (if 0 < header_field_count headerFields then 1 else 0)
       \<and> list_all
            (\<lambda>header.
               length (children header) = header_field_count headerFields
               \<and> map (\<lambda>c. (ele_name c, children c)) (children header)
                   = map (\<lambda>field.
                            (Some (replace_spaces (fst field)),
                             [Txt (case snd field of Val x \<Rightarrow> String_of rt x
                                   | Null \<Rightarrow> [] | Undefined \<Rightarrow> [])]))
                       (obj_entries (the headerFields)))
            (child_elements XML_HEADER_ELEMENT doc)
       \<and> length (child_elements XML_BODY_ELEMENT doc) = 1
       \<and> list_all
            (\<lambda>body.
               length (children body) = length records
               \<and> map (\<lambda>row. (ele_name row, map (\<lambda>c. (ele_name c, children c)) (children row)))
                     (children body)
                   = map (\<lambda>record.
                            (Some XML_ROW_ELEMENT,
                             map (\<lambda>field. (Some (sanitizeXmlTag (Some (fst field))),
                                            [Txt (snd field)]))
                               (obj_entries record)))
                       records)
            (child_elements XML_BODY_ELEMENT doc)"
  using assemble_cases[OF assms] element_names_differ
  by (auto simp: child_elements_def createDataSection_def header_field_count_def obj_keys_def
      comp_def)

text \<open>The assembly run on the example sheet.\<close>

lemma demo_rt_fields:
  "String_of demo_rt = decimal"
  "XLSX_readFile demo_rt
     = (\<lambda>bytes. if bytes = [] then Inl (js ''empty file'') else Inr demo_workbook)"
  "ele_error demo_rt = (\<lambda>name. if valid_tag name then None else Some (js ''invalid name''))"
  "xml_end demo_rt = render"
  "utf8_encode demo_rt = map ucast"
  "utf8_decode demo_rt = map ucast"
  "can_write demo_rt = (\<lambda>path. path \<noteq> [])"
  "randomBytes demo_rt = (\<lambda>n. replicate n 7)"
  "cipher demo_rt = (\<lambda>k iv d. Inr (map (\<lambda>b. b + 1) d))"
  "decipher demo_rt = (\<lambda>k iv d. if length iv = 16 then Inr (map (\<lambda>b. b - 1) d)
                                  else Inl (js ''Invalid IV length''))"
  "base64_encode demo_rt = map ucast"
  "base64_decode demo_rt = map ucast"
  "startTime demo_rt = 1000"
  "endTime demo_rt = 1042"
  "can_unlink demo_rt = (\<lambda>path. True)"
  by (simp_all add: demo_rt_def)

lemma decimal_12: "decimal 12 = js ''12''"
  by (subst decimal.simps) (simp add: decimal_digit js_def)

lemma demo_keys_no_index:
  "array_index (js ''Bank Code'') = None" "array_index (js ''Period'') = None"
  "array_index (js ''ID'') = None" "array_index (js ''Amount'') = None"
  by (simp_all add: js_def array_index_non_digit is_digit_def)

lemma demo_header_entries: "obj_entries demo_header = demo_header"
  by (rule obj_entries_no_index) (simp add: demo_header_def demo_keys_no_index)

lemma demo_record_entries:
  "obj_entries [(js ''ID'', a), (js ''Amount'', b)] = [(js ''ID'', a), (js ''Amount'', b)]"
  by (rule obj_entries_no_index) (simp add: demo_keys_no_index)

lemma demo_header_names:
  "replace_spaces (js ''Bank Code'') = js ''Bank_Code''"
  "replace_spaces (js ''Period'') = js ''Period''"
  "valid_tag (js ''Bank_Code'')" "valid_tag (js ''Period'')"
  by (simp_all add: valid_tag_def char_defs)

lemma demo_field_names:
  "sanitizeXmlTag (Some (js ''ID'')) = js ''ID''"
  "sanitizeXmlTag (Some (js ''Amount'')) = js ''Amount''"
  by (rule sanitize_valid_id, simp add: valid_tag_def char_defs)+

lemma demo_header_children:
  "header_children demo_rt demo_header
     = Inr [Ele (js ''Bank_Code'') [Txt (js ''12'')], Ele (js ''Period'') [Txt []]]"
  by (simp add: demo_header_def demo_rt_fields demo_header_names decimal_12)

lemma demo_assemble:
  "assemble demo_rt (processExcelData decimal demo_sheet) (Some demo_header) = Inr demo_doc"
proof -
  have keys: "length (obj_keys demo_header) = 2"
    by (simp add: obj_keys_def demo_header_entries) (simp add: demo_header_def)
  have rows: "createDataSection (processExcelData decimal demo_sheet)
              = [Ele (js ''CALLREPORT_DATA'')
                   [Ele (js ''ID'') [Txt (js ''1'')], Ele (js ''Amount'') [Txt (js ''10.50'')]],
                 Ele (js ''CALLREPORT_DATA'')
                   [Ele (js ''ID'') [Txt (js ''2'')], Ele (js ''Amount'') [Txt (js ''20.00'')]]]"
    by (simp add: demo_records createDataSection_def demo_record_entries demo_field_names
        XML_ROW_ELEMENT_def)
  show ?thesis
    by (simp add: assemble_def createHeader_def keys demo_header_entries demo_header_children
        rows demo_doc_def XML_ROOT_ELEMENT_def XML_HEADER_ELEMENT_def XML_BODY_ELEMENT_def)
qed

theorem assembled_document_shape_witness:
  "assemble demo_rt (processExcelData decimal demo_sheet) (Some demo_header) = Inr demo_doc
   \<and> header_field_count (Some demo_header) = 2
   \<and> length (processExcelData decimal demo_sheet) = 2
   \<and> length (child_elements XML_HEADER_ELEMENT demo_doc) = 1
   \<and> length (child_elements XML_BODY_ELEMENT demo_doc) = 1
   \<and> children demo_doc
       = child_elements XML_HEADER_ELEMENT demo_doc @ child_elements XML_BODY_ELEMENT demo_doc
   \<and> list_all (\<lambda>header. length (children header) = 2) (child_elements XML_HEADER_ELEMENT demo_doc)
   \<and> list_all (\<lambda>body. length (children body) = 2) (child_elements XML_BODY_ELEMENT demo_doc)"
proof -
  have count: "header_field_count (Some demo_header) = 2"
    by (simp add: header_field_count_def obj_keys_def demo_header_entries)
       (simp add: demo_header_def)
  have n: "length (processExcelData decimal demo_sheet) = 2"
    by (simp add: demo_records)
  note shape = assembled_document_shape[OF demo_assemble]
  from shape have "length (child_elements XML_HEADER_ELEMENT demo_doc)
                   = (if 0 < header_field_count (Some demo_header) then 1 else 0)"
    by blast
  then have one_header: "length (child_elements XML_HEADER_ELEMENT demo_doc) = 1"
    by (simp add: count)
  from shape have one_body: "length (child_elements XML_BODY_ELEMENT demo_doc) = 1"
    by blast
  from shape have split:
    "children demo_doc
       = child_elements XML_HEADER_ELEMENT demo_doc @ child_elements XML_BODY_ELEMENT demo_doc"
    by blast
  from shape have
    "list_all (\<lambda>header. length (children header) = header_field_count (Some demo_header))
       (child_elements XML_HEADER_ELEMENT demo_doc)"
    by (simp add: list_all_iff)
  then have header_children:
    "list_all (\<lambda>header. length (children header) = 2) (child_elements XML_HEADER_ELEMENT demo_doc)"
    by (simp add: count)
  from shape have
    "list_all (\<lambda>body. length (children body) = length (processExcelData decimal demo_sheet))
       (child_elements XML_BODY_ELEMENT demo_doc)"
    by (simp add: list_all_iff)
  then have body_children:
    "list_all (\<lambda>body. length (children body) = 2) (child_elements XML_BODY_ELEMENT demo_doc)"
    by (simp add: n)
  from demo_assemble count n one_header one_body split header_children body_children
  show ?thesis
    by blast
qed

section \<open>The file cipher\<close>

lemma files_log_event [simp]: "files (log_event ev st) = files st"
  by (simp add: log_event_def)

lemma byte_char_byte: "ucast (ucast (b :: 8 word) :: 16 word) = b"
  by (rule ucast_up_ucast_id) (simp add: is_up)

text \<open>What \<open>encryptFile\<close> does to the files: nothing when it throws, one write otherwise.\<close>

lemma encryptFile_failure:
  "encryptFile rt enc inputPath outputPath st = (Inl e, st') \<Longrightarrow> files st' = files st"
  by (auto simp: encryptFile_def encryptData_def readFileSync_def writeFileSync_def Let_def
      split: option.splits sum.splits if_splits)

lemma encryptFile_success:
  assumes "encryptFile rt enc inputPath outputPath st = (Inr u, st')"
  shows "\<exists>content ct.
           files st inputPath = Some content
           \<and> cipher rt (aes_key enc) (randomBytes rt (aes_ivLength enc)) content = Inr ct
           \<and> files st' = (files st)(outputPath \<mapsto>
               utf8_encode rt (base64_encode rt (randomBytes rt (aes_ivLength enc) @ ct)))"
  using assms
  by (auto simp: encryptFile_def encryptData_def readFileSync_def writeFileSync_def Let_def
      split: option.splits sum.splits if_splits)

lemma encryptFile_runs:
  assumes "files st inputPath = Some content"
    and "cipher rt (aes_key enc) (randomBytes rt (aes_ivLength enc)) content = Inr ct"
    and "can_write rt outputPath"
  shows "fst (encryptFile rt enc inputPath outputPath st) = Inr ()
       \<and> files (snd (encryptFile rt enc inputPath outputPath st))
           = (files st)(outputPath \<mapsto>
               utf8_encode rt (base64_encode rt (randomBytes rt (aes_ivLength enc) @ ct)))"
  using assms
  by (simp add: encryptFile_def encryptData_def readFileSync_def writeFileSync_def Let_def)

lemma decryptFile_runs:
  assumes "files st inputPath = Some bytes"
    and "decipher rt (aes_key enc)
           (take (aes_ivLength enc) (base64_decode rt (utf8_decode rt bytes)))
           (drop (aes_ivLength enc) (base64_decode rt (utf8_decode rt bytes))) = Inr plain"
    and "can_write rt outputPath"
  shows "fst (decryptFile rt enc inputPath outputPath st) = Inr ()
       \<and> files (snd (decryptFile rt enc inputPath outputPath st))
           = (files st)(outputPath \<mapsto> plain)"
  using assms
  by (simp add: decryptFile_def decryptData_def readFileSync_def writeFileSync_def Let_def)

text \<open>
  C2. Let the runtime satisfy the laws of the libraries: the random source returns as
  many bytes as it is asked for, a base64 text written to a UTF-8 file and read back
  decodes to the bytes that were encoded, and deciphering with the key and the 16-byte IV
  of the encryption gives the plaintext back. Then, for every content \<open>C\<close> of the plaintext
  file on which the cipher does not throw, \<open>encryptFile\<close> succeeds and writes
  base64(IV || ciphertext) with a 16-byte IV, and \<open>decryptFile\<close> on that file
  succeeds and writes exactly \<open>C\<close>.
\<close>

theorem encrypt_decrypt_round_trip:
  assumes "enc = AESEncryption rt secret"
    and "files st plainPath = Some content"
    and "length (randomBytes rt 16) = 16"
    and "\<forall>b. base64_decode rt (utf8_decode rt (utf8_encode rt (base64_encode rt b))) = b"
    and "\<forall>iv d ct. length iv = 16 \<and> cipher rt (aes_key enc) iv d = Inr ct
                   \<longrightarrow> decipher rt (aes_key enc) iv ct = Inr d"
    and "cipher rt (aes_key enc) (randomBytes rt 16) content = Inr ct"
    and "can_write rt encPath" and "can_write rt outPath"
  shows "fst (encryptFile rt enc plainPath encPath st) = Inr ()
       \<and> files (snd (encryptFile rt enc plainPath encPath st)) encPath
           = Some (utf8_encode rt (base64_encode rt (randomBytes rt 16 @ ct)))
       \<and> fst (decryptFile rt enc encPath outPath (snd (encryptFile rt enc plainPath encPath st)))
           = Inr ()
       \<and> files (snd (decryptFile rt enc encPath outPath
                       (snd (encryptFile rt enc plainPath encPath st)))) outPath
           = Some content"
proof -
  let ?iv = "randomBytes rt 16"
  let ?st1 = "snd (encryptFile rt enc plainPath encPath st)"
  have len: "aes_ivLength enc = 16"
    using assms(1) by (simp add: AESEncryption_def)
  from encryptFile_runs[of st plainPath content rt enc ct encPath] assms(2,6,7)
  have e1: "fst (encryptFile rt enc plainPath encPath st) = Inr ()"
    and f1: "files ?st1 = (files st)(encPath \<mapsto> utf8_encode rt (base64_encode rt (?iv @ ct)))"
    by (simp_all add: len)
  have stored: "files ?st1 encPath = Some (utf8_encode rt (base64_encode rt (?iv @ ct)))"
    by (simp add: f1)
  have decoded:
    "base64_decode rt (utf8_decode rt (utf8_encode rt (base64_encode rt (?iv @ ct)))) = ?iv @ ct"
    using assms(4) by blast
  have plain: "decipher rt (aes_key enc) ?iv ct = Inr content"
    using assms(3,5,6) by blast
  have "decipher rt (aes_key enc)
          (take (aes_ivLength enc)
             (base64_decode rt (utf8_decode rt (utf8_encode rt (base64_encode rt (?iv @ ct))))))
          (drop (aes_ivLength enc)
             (base64_decode rt (utf8_decode rt (utf8_encode rt (base64_encode rt (?iv @ ct))))))
        = Inr content"
    unfolding decoded by (simp add: len assms(3) plain)
  from decryptFile_runs[OF stored this assms(8)]
  have "fst (decryptFile rt enc encPath outPath ?st1) = Inr ()"
    and "files (snd (decryptFile rt enc encPath outPath ?st1)) outPath = Some content"
    by simp_all
  with e1 stored show ?thesis
    by blast
qed

lemma failing_rt_fields:
  "String_of failing_rt = decimal"
  "XLSX_readFile failing_rt
     = (\<lambda>bytes. if bytes = [] then Inl (js ''empty file'') else Inr demo_workbook)"
  "xml_end failing_rt = render"
  "utf8_encode failing_rt = map ucast"
  "can_write failing_rt = (\<lambda>path. path \<noteq> [])"
  "randomBytes failing_rt = (\<lambda>n. replicate n 7)"
  "cipher failing_rt = (\<lambda>k iv d. Inl (js ''cipher failure''))"
  by (simp_all add: failing_rt_def demo_rt_def)

theorem encrypt_decrypt_round_trip_witness:
  "files \<lparr>files = [js ''a.xml'' \<mapsto> [60, 97, 47, 62]], audit = []\<rparr> (js ''a.xml'')
     = Some [60, 97, 47, 62]
   \<and> length (randomBytes demo_rt 16) = 16
   \<and> cipher demo_rt (aes_key (AESEncryption demo_rt None)) (randomBytes demo_rt 16)
        [60, 97, 47, 62] = Inr [61, 98, 48, 63]
   \<and> can_write demo_rt (js ''a.xml.enc'') \<and> can_write demo_rt (js ''b.xml'')
   \<and> fst (encryptFile demo_rt (AESEncryption demo_rt None) (js ''a.xml'') (js ''a.xml.enc'')
            \<lparr>files = [js ''a.xml'' \<mapsto> [60, 97, 47, 62]], audit = []\<rparr>) = Inr ()
   \<and> files (snd (decryptFile demo_rt (AESEncryption demo_rt None) (js ''a.xml.enc'') (js ''b.xml'')
        (snd (encryptFile demo_rt (AESEncryption demo_rt None) (js ''a.xml'') (js ''a.xml.enc'')
               \<lparr>files = [js ''a.xml'' \<mapsto> [60, 97, 47, 62]], audit = []\<rparr>)))) (js ''b.xml'')
     = Some [60, 97, 47, 62]"
proof -
  let ?enc = "AESEncryption demo_rt None"
  let ?st = "\<lparr>files = [js ''a.xml'' \<mapsto> [60, 97, 47, 62]], audit = []\<rparr>"
  have h2: "files ?st (js ''a.xml'') = Some [60, 97, 47, 62]"
    by simp
  have h3: "length (randomBytes demo_rt 16) = 16"
    by (simp add: demo_rt_fields)
  have h4: "\<forall>b. base64_decode demo_rt
                  (utf8_decode demo_rt (utf8_encode demo_rt (base64_encode demo_rt b))) = b"
    by (simp add: demo_rt_fields comp_def byte_char_byte)
  have h5: "\<forall>iv d ct. length iv = 16 \<and> cipher demo_rt (aes_key ?enc) iv d = Inr ct
                      \<longrightarrow> decipher demo_rt (aes_key ?enc) iv ct = Inr d"
    by (auto simp: demo_rt_fields comp_def)
  have h6: "cipher demo_rt (aes_key ?enc) (randomBytes demo_rt 16) [60, 97, 47, 62]
            = Inr [61, 98, 48, 63]"
    by (simp add: demo_rt_fields)
  have h7: "can_write demo_rt (js ''a.xml.enc'')" and h8: "can_write demo_rt (js ''b.xml'')"
    by (simp_all add: demo_rt_fields js_def)
  from encrypt_decrypt_round_trip[OF refl h2 h3 h4 h5 h6 h7 h8] h2 h3 h6 h7 h8
  show ?thesis
    by blast
qed

section \<open>The conversion\<close>

lemma extract_records_result:
  "extract_records rt ws = Inr records \<Longrightarrow>
   records = processExcelData (String_of rt) ws \<and> records \<noteq> []"
  by (auto simp: extract_records_def Let_def split: if_splits)

lemma write_plaintext_result:
  assumes "write_plaintext rt inputFile outputFile headerFields sheetName st
           = Inr ((sheet, records), st1)"
  shows "\<exists>ws root.
           load_worksheet rt inputFile sheetName st = Inr (sheet, ws)
           \<and> extract_records rt ws = Inr records
           \<and> assemble rt records headerFields = Inr root
           \<and> can_write rt outputFile
           \<and> st1 = st\<lparr>files := (files st)(outputFile \<mapsto> utf8_encode rt (xml_end rt root))\<rparr>"
  using assms
  by (auto simp: write_plaintext_def writeFileSync_def Let_def split: sum.splits if_splits)

lemma write_plaintext_runs:
  assumes "load_worksheet rt inputFile sheetName st = Inr (sheet, ws)"
    and "extract_records rt ws = Inr records"
    and "assemble rt records headerFields = Inr root"
    and "can_write rt outputFile"
  shows "write_plaintext rt inputFile outputFile headerFields sheetName st
         = Inr ((sheet, records),
                st\<lparr>files := (files st)(outputFile \<mapsto> utf8_encode rt (xml_end rt root))\<rparr>)"
  using assms by (simp add: write_plaintext_def writeFileSync_def Let_def)

text \<open>
  When the encryption block throws, a file is still at the output path: either
  \<open>encryptFile\<close> threw, and the files are as they were, or \<open>unlinkSync\<close> threw, and
  the plaintext was not removed.
\<close>

lemma encrypt_output_failure:
  assumes "encrypt_output rt enc outputFile encryptOutput st = (Inl e, st')"
    and "files st outputFile \<noteq> None"
  shows "files st' outputFile \<noteq> None"
proof (cases encryptOutput)
  case False
  with assms show ?thesis
    by (simp add: encrypt_output_def)
next
  case True
  let ?encrypted = "replace_first (js ''.xml'') (js ''.xml.enc'') outputFile"
  obtain r st1 where ef: "encryptFile rt enc outputFile ?encrypted st = (r, st1)"
    by (cases "encryptFile rt enc outputFile ?encrypted st")
  show ?thesis
  proof (cases r)
    case (Inl e1)
    with ef True assms(1) have "st' = st1"
      by (simp add: encrypt_output_def Let_def)
    with encryptFile_failure ef Inl assms(2) show ?thesis
      by metis
  next
    case (Inr u)
    with encryptFile_success ef obtain c where "files st1 = (files st)(?encrypted \<mapsto> c)"
      by blast
    with assms(2) have kept: "files st1 outputFile \<noteq> None"
      by simp
    from ef Inr True assms(1) have "st' = st1"
      by (simp add: encrypt_output_def Let_def unlinkSync_def split: if_splits)
    with kept show ?thesis
      by simp
  qed
qed

lemma encrypt_output_success:
  assumes "encrypt_output rt enc outputFile True st = (Inr finalOutput, st')"
  shows "finalOutput = replace_first (js ''.xml'') (js ''.xml.enc'') outputFile
       \<and> (\<exists>content ct.
             files st outputFile = Some content
             \<and> cipher rt (aes_key enc) (randomBytes rt (aes_ivLength enc)) content = Inr ct
             \<and> files st'
                 = ((files st)(finalOutput \<mapsto>
                      utf8_encode rt (base64_encode rt (randomBytes rt (aes_ivLength enc) @ ct))))
                   (outputFile := None))"
proof -
  let ?encrypted = "replace_first (js ''.xml'') (js ''.xml.enc'') outputFile"
  obtain r st1 where ef: "encryptFile rt enc outputFile ?encrypted st = (r, st1)"
    by (cases "encryptFile rt enc outputFile ?encrypted st")
  show ?thesis
  proof (cases r)
    case (Inl e1)
    with ef assms show ?thesis
      by (simp add: encrypt_output_def Let_def)
  next
    case (Inr u)
    with encryptFile_success ef obtain content ct where
      "files st outputFile = Some content"
      and "cipher rt (aes_key enc) (randomBytes rt (aes_ivLength enc)) content = Inr ct"
      and "files st1 = (files st)(?encrypted \<mapsto>
             utf8_encode rt (base64_encode rt (randomBytes rt (aes_ivLength enc) @ ct)))"
      by blast
    with ef Inr assms show ?thesis
      by (auto simp: encrypt_output_def Let_def unlinkSync_def split: if_splits)
  qed
qed

lemma encrypt_output_runs:
  assumes "files st outputFile = Some content"
    and "cipher rt (aes_key enc) (randomBytes rt (aes_ivLength enc)) content = Inr ct"
    and "can_write rt (replace_first (js ''.xml'') (js ''.xml.enc'') outputFile)"
    and "can_unlink rt outputFile"
  shows "fst (encrypt_output rt enc outputFile True st)
           = Inr (replace_first (js ''.xml'') (js ''.xml.enc'') outputFile)
       \<and> files (snd (encrypt_output rt enc outputFile True st))
           = ((files st)(replace_first (js ''.xml'') (js ''.xml.enc'') outputFile \<mapsto>
                utf8_encode rt (base64_encode rt (randomBytes rt (aes_ivLength enc) @ ct))))
             (outputFile := None)"
proof -
  let ?encrypted = "replace_first (js ''.xml'') (js ''.xml.enc'') outputFile"
  obtain r st1 where ef: "encryptFile rt enc outputFile ?encrypted st = (r, st1)"
    by (cases "encryptFile rt enc outputFile ?encrypted st")
  with encryptFile_runs[OF assms(1,2,3)] have r: "r = Inr ()"
    and f: "files st1 = (files st)(?encrypted \<mapsto>
              utf8_encode rt (base64_encode rt (randomBytes rt (aes_ivLength enc) @ ct)))"
    by simp_all
  from f assms(1) have "files st1 outputFile \<noteq> None"
    by simp
  with ef r f assms(4) show ?thesis
    by (simp add: encrypt_output_def Let_def unlinkSync_def)
qed

text \<open>The encrypted file is written and the plaintext stays when \<open>unlinkSync\<close> throws.\<close>

lemma encrypt_output_unlink_fails:
  assumes "files st outputFile = Some content"
    and "cipher rt (aes_key enc) (randomBytes rt (aes_ivLength enc)) content = Inr ct"
    and "can_write rt (replace_first (js ''.xml'') (js ''.xml.enc'') outputFile)"
    and "\<not> can_unlink rt outputFile"
  shows "fst (encrypt_output rt enc outputFile True st) = Inl (FileSystemError outputFile)
       \<and> files (snd (encrypt_output rt enc outputFile True st))
           = (files st)(replace_first (js ''.xml'') (js ''.xml.enc'') outputFile \<mapsto>
                utf8_encode rt (base64_encode rt (randomBytes rt (aes_ivLength enc) @ ct)))"
proof -
  let ?encrypted = "replace_first (js ''.xml'') (js ''.xml.enc'') outputFile"
  obtain r st1 where ef: "encryptFile rt enc outputFile ?encrypted st = (r, st1)"
    by (cases "encryptFile rt enc outputFile ?encrypted st")
  with encryptFile_runs[OF assms(1,2,3)] have r: "r = Inr ()"
    and f: "files st1 = (files st)(?encrypted \<mapsto>
              utf8_encode rt (base64_encode rt (randomBytes rt (aes_ivLength enc) @ ct)))"
    by simp_all
  with ef assms(4) show ?thesis
    by (simp add: encrypt_output_def Let_def unlinkSync_def)
qed

lemma convert_result:
  "convert rt enc inputFile outputFile headerFields sheetName encryptOutput st = (Inr res, st')
   \<Longrightarrow> convert_try rt enc inputFile outputFile headerFields sheetName encryptOutput st
         = (Inr res, st')"
  by (auto simp: convert_def split: prod.splits sum.splits)

lemma convert_try_result:
  assumes "convert_try rt enc inputFile outputFile headerFields sheetName encryptOutput st
           = (Inr res, st')"
  shows "\<exists>sheet records st1 finalOutput st2.
           write_plaintext rt inputFile outputFile headerFields sheetName st
             = Inr ((sheet, records), st1)
           \<and> encrypt_output rt enc outputFile encryptOutput st1 = (Inr finalOutput, st2)
           \<and> res = \<lparr>success = True, rowsProcessed = length records,
                     conversionTime = endTime rt - startTime rt\<rparr>
           \<and> st' = log_event
                     (ConversionEvent inputFile finalOutput (endTime rt - startTime rt)
                        (length records)
                        (if length records > 0 then obj_keys (hd records) else [])
                        sheet encryptOutput)
                     st2"
  using assms
  by (auto simp: convert_try_def Let_def split: sum.splits prod.splits split del: if_split)

lemma replace_first_length:
  "\<exists>a b. s = a @ pat @ b \<Longrightarrow>
   length (replace_first pat rep s) + length pat = length s + length rep"
proof (induction s)
  case Nil
  then show ?case
    by auto
next
  case (Cons c cs)
  show ?case
  proof (cases "take (length pat) (c # cs) = pat")
    case True
    have "length (take (length pat) (c # cs)) \<le> length (c # cs)"
      by simp
    with True have "length pat \<le> length (c # cs)"
      by simp
    with True show ?thesis
      by simp
  next
    case False
    from Cons.prems obtain a b where ab: "c # cs = a @ pat @ b"
      by blast
    with False have "a \<noteq> []"
      by auto
    with ab obtain a' where "cs = a' @ pat @ b"
      by (cases a) auto
    with Cons.IH have "length (replace_first pat rep cs) + length pat = length cs + length rep"
      by blast
    with False show ?thesis
      by simp
  qed
qed

lemma encrypted_path_differs:
  assumes "outputFile = a @ js ''.xml'' @ b"
  shows "replace_first (js ''.xml'') (js ''.xml.enc'') outputFile \<noteq> outputFile"
proof
  assume eq: "replace_first (js ''.xml'') (js ''.xml.enc'') outputFile = outputFile"
  from assms have "\<exists>a b. outputFile = a @ js ''.xml'' @ b"
    by blast
  from replace_first_length[OF this, of "js ''.xml.enc''"] eq show False
    by (simp add: js_def)
qed

text \<open>The extraction is empty for a sheet without data rows and for one whose data rows are blank.\<close>

lemma no_data_rows_no_records:
  "e_r (decode_ref ws) \<le> s_r (decode_ref ws) \<Longrightarrow> processExcelData str ws = []"
  by (simp add: processExcelData_def data_rows_def Let_def)

lemma blank_rows_no_records:
  assumes "\<forall>r\<in>set (data_rows (decode_ref ws)). \<forall>c\<in>set (columns (decode_ref ws)).
             getDisplay str (cells ws (r, c)) = []"
  shows "processExcelData str ws = []"
proof -
  have "\<not> snd (row_loop str ws (headerMap str ws (decode_ref ws)) r)"
    if "r \<in> set (data_rows (decode_ref ws))" for r
    using that assms by (auto simp: row_loop_def snd_row_fold headerMap_def)
  then show ?thesis
    by (auto simp: processExcelData_def Let_def filter_empty_conv)
qed

text \<open>
  C5. When the sheet that the conversion selects yields no record, \<open>convert\<close> throws
  the error \<open>Excel file is empty\<close>, and the files are what they were before the call:
  nothing is written at the output path.
\<close>

theorem empty_sheet_is_rejected:
  assumes "load_worksheet rt inputFile sheetName st = Inr (sheet, ws)"
    and "processExcelData (String_of rt) ws = []"
  shows "fst (convert rt enc inputFile outputFile headerFields sheetName encryptOutput st)
           = Inl ExcelFileEmpty
       \<and> files (snd (convert rt enc inputFile outputFile headerFields sheetName encryptOutput st))
           = files st"
  using assms
  by (simp add: convert_def convert_try_def write_plaintext_def extract_records_def Let_def)

text \<open>The conversion of the example workbook, for a runtime that reads it.\<close>

lemma demo_load:
  assumes "XLSX_readFile rt
           = (\<lambda>bytes. if bytes = [] then Inl (js ''empty file'') else Inr demo_workbook)"
  shows "load_worksheet rt (js ''in.xlsx'') None demo_state = Inr (js ''Sheet1'', demo_sheet)"
    and "load_worksheet rt (js ''in.xlsx'') (Some (js ''Empty'')) demo_state
         = Inr (js ''Empty'', header_only_sheet)"
  by (simp_all add: load_worksheet_def select_sheet_def demo_state_def demo_workbook_def assms
      js_def)

lemma demo_extract:
  assumes "String_of rt = decimal"
  shows "extract_records rt demo_sheet = Inr (processExcelData decimal demo_sheet)"
  by (simp add: extract_records_def demo_range assms Let_def demo_records)

lemma assemble_no_header:
  "assemble rt records None
   = Inr (Ele XML_ROOT_ELEMENT [Ele XML_BODY_ELEMENT (createDataSection records)])"
  by (simp add: assemble_def)

lemma demo_write_plaintext:
  assumes "XLSX_readFile rt
           = (\<lambda>bytes. if bytes = [] then Inl (js ''empty file'') else Inr demo_workbook)"
    and "String_of rt = decimal"
    and "can_write rt out"
  shows "write_plaintext rt (js ''in.xlsx'') out None None demo_state
         = Inr ((js ''Sheet1'', processExcelData decimal demo_sheet),
                demo_state\<lparr>files := (files demo_state)(out \<mapsto>
                  utf8_encode rt (xml_end rt
                    (Ele XML_ROOT_ELEMENT
                       [Ele XML_BODY_ELEMENT
                          (createDataSection (processExcelData decimal demo_sheet))])))\<rparr>)"
  by (rule write_plaintext_runs[OF demo_load(1)[OF assms(1)] demo_extract[OF assms(2)]
        assemble_no_header assms(3)])

lemma convert_plain_runs:
  assumes "write_plaintext rt inputFile outputFile headerFields sheetName st
           = Inr ((sheet, records), st1)"
  shows "fst (convert rt enc inputFile outputFile headerFields sheetName False st)
           = Inr \<lparr>success = True, rowsProcessed = length records,
                  conversionTime = endTime rt - startTime rt\<rparr>
       \<and> files (snd (convert rt enc inputFile outputFile headerFields sheetName False st))
           = files st1
       \<and> audit (snd (convert rt enc inputFile outputFile headerFields sheetName False st)) \<noteq> []"
  using assms
  by (simp add: convert_def convert_try_def encrypt_output_def Let_def log_event_def)

lemma convert_encrypted_runs:
  assumes "write_plaintext rt inputFile outputFile headerFields sheetName st
           = Inr ((sheet, records), st1)"
    and "files st1 outputFile = Some content"
    and "cipher rt (aes_key enc) (randomBytes rt (aes_ivLength enc)) content = Inr ct"
    and "can_write rt (replace_first (js ''.xml'') (js ''.xml.enc'') outputFile)"
    and "can_unlink rt outputFile"
  shows "fst (convert rt enc inputFile outputFile headerFields sheetName True st)
           = Inr \<lparr>success = True, rowsProcessed = length records,
                  conversionTime = endTime rt - startTime rt\<rparr>
       \<and> files (snd (convert rt enc inputFile outputFile headerFields sheetName True st))
           = ((files st1)(replace_first (js ''.xml'') (js ''.xml.enc'') outputFile \<mapsto>
                utf8_encode rt (base64_encode rt (randomBytes rt (aes_ivLength enc) @ ct))))
             (outputFile := None)"
proof -
  obtain r st2 where eo: "encrypt_output rt enc outputFile True st1 = (r, st2)"
    by (cases "encrypt_output rt enc outputFile True st1")
  with encrypt_output_runs[OF assms(2,3,4,5)]
  have "r = Inr (replace_first (js ''.xml'') (js ''.xml.enc'') outputFile)"
    and "files st2
         = ((files st1)(replace_first (js ''.xml'') (js ''.xml.enc'') outputFile \<mapsto>
              utf8_encode rt (base64_encode rt (randomBytes rt (aes_ivLength enc) @ ct))))
           (outputFile := None)"
    by simp_all
  with eo assms(1) show ?thesis
    by (simp add: convert_def convert_try_def Let_def)
qed

lemma convert_encryption_fails:
  assumes "write_plaintext rt inputFile outputFile headerFields sheetName st
           = Inr ((sheet, records), st1)"
    and "files st1 outputFile = Some content"
    and "cipher rt (aes_key enc) (randomBytes rt (aes_ivLength enc)) content = Inl msg"
  shows "fst (convert rt enc inputFile outputFile headerFields sheetName True st)
           = Inl (CryptoError msg)
       \<and> files (snd (convert rt enc inputFile outputFile headerFields sheetName True st))
           = files st1"
  using assms
  by (simp add: convert_def convert_try_def encrypt_output_def encryptFile_def encryptData_def
      readFileSync_def Let_def)

lemma convert_unlink_fails:
  assumes "write_plaintext rt inputFile outputFile headerFields sheetName st
           = Inr ((sheet, records), st1)"
    and "files st1 outputFile = Some content"
    and "cipher rt (aes_key enc) (randomBytes rt (aes_ivLength enc)) content = Inr ct"
    and "can_write rt (replace_first (js ''.xml'') (js ''.xml.enc'') outputFile)"
    and "\<not> can_unlink rt outputFile"
  shows "fst (convert rt enc inputFile outputFile headerFields sheetName True st)
           = Inl (FileSystemError outputFile)
       \<and> files (snd (convert rt enc inputFile outputFile headerFields sheetName True st))
           = (files st1)(replace_first (js ''.xml'') (js ''.xml.enc'') outputFile \<mapsto>
                utf8_encode rt (base64_encode rt (randomBytes rt (aes_ivLength enc) @ ct)))"
proof -
  obtain r st2 where eo: "encrypt_output rt enc outputFile True st1 = (r, st2)"
    by (cases "encrypt_output rt enc outputFile True st1")
  with encrypt_output_unlink_fails[OF assms(2,3,4,5)]
  have "r = Inl (FileSystemError outputFile)"
    and "files st2
         = (files st1)(replace_first (js ''.xml'') (js ''.xml.enc'') outputFile \<mapsto>
              utf8_encode rt (base64_encode rt (randomBytes rt (aes_ivLength enc) @ ct)))"
    by simp_all
  with eo assms(1) show ?thesis
    by (simp add: convert_def convert_try_def Let_def)
qed

theorem empty_sheet_is_rejected_witness:
  "load_worksheet demo_rt (js ''in.xlsx'') (Some (js ''Empty'')) demo_state
     = Inr (js ''Empty'', header_only_sheet)
   \<and> processExcelData (String_of demo_rt) header_only_sheet = []
   \<and> fst (convert demo_rt (AESEncryption demo_rt None) (js ''in.xlsx'') (js ''out.xml'')
            (Some demo_header) (Some (js ''Empty'')) True demo_state) = Inl ExcelFileEmpty
   \<and> files (snd (convert demo_rt (AESEncryption demo_rt None) (js ''in.xlsx'') (js ''out.xml'')
                   (Some demo_header) (Some (js ''Empty'')) True demo_state)) (js ''out.xml'')
       = None"
proof -
  have h1: "load_worksheet demo_rt (js ''in.xlsx'') (Some (js ''Empty'')) demo_state
            = Inr (js ''Empty'', header_only_sheet)"
    by (rule demo_load(2)) (simp add: demo_rt_fields)
  have h2: "processExcelData (String_of demo_rt) header_only_sheet = []"
    by (simp add: demo_rt_fields header_only_records)
  have "files demo_state (js ''out.xml'') = None"
    by (simp add: demo_state_def js_def)
  with empty_sheet_is_rejected[OF h1 h2, of "AESEncryption demo_rt None" "js ''out.xml''"
      "Some demo_header" True] h1 h2
  show ?thesis
    by simp
qed

lemma convert_failure:
  assumes "fst (convert rt enc inputFile outputFile headerFields sheetName encryptOutput st) = Inl e"
    and "write_plaintext rt inputFile outputFile headerFields sheetName st
         = Inr ((sheet, records), st1)"
  shows "encryptOutput"
    and "files (snd (convert rt enc inputFile outputFile headerFields sheetName encryptOutput st))
           outputFile \<noteq> None"
proof -
  from write_plaintext_result[OF assms(2)] have exists: "files st1 outputFile \<noteq> None"
    by auto
  obtain r st2 where eo: "encrypt_output rt enc outputFile encryptOutput st1 = (r, st2)"
    by (cases "encrypt_output rt enc outputFile encryptOutput st1")
  from assms eo obtain e1 where r: "r = Inl e1"
    by (cases r) (simp_all add: convert_def convert_try_def Let_def)
  with eo show "encryptOutput"
    by (cases encryptOutput) (simp_all add: encrypt_output_def)
  from encrypt_output_failure[OF _ exists] eo r have "files st2 outputFile \<noteq> None"
    by blast
  with eo r assms(2)
  show "files (snd (convert rt enc inputFile outputFile headerFields sheetName encryptOutput st))
          outputFile \<noteq> None"
    by (simp add: convert_def convert_try_def Let_def)
qed

lemma route_finally_keeps:
  assumes "files st outputFile \<noteq> None" and "inputFile \<noteq> outputFile"
  shows "files (snd (route_finally rt (Some inputFile) st)) outputFile \<noteq> None"
  using assms by (simp add: route_finally_def unlinkSync_def)

text \<open>
  C1 (as amended). When a conversion fails after the plaintext file has been written, the
  exit handling does not delete the plaintext: a file is still at the output path after
  \<open>convert\<close> has thrown, and still there after the \<open>finally\<close> block of the route,
  which removes the input file only (the two paths being different). The plaintext that was
  written is the serialized document. When the failure is the cipher throwing, the plaintext
  is not promoted to the encrypted path: the files after the call are the files as they
  were once the plaintext was written, with nothing added.
\<close>

theorem failed_encryption_keeps_plaintext:
  assumes "write_plaintext rt inputFile outputFile headerFields sheetName st
           = Inr ((sheet, records), st1)"
    and "fst (convert rt enc inputFile outputFile headerFields sheetName encryptOutput st) = Inl e"
  shows "files (snd (convert rt enc inputFile outputFile headerFields sheetName encryptOutput st))
            outputFile \<noteq> None
       \<and> (inputFile \<noteq> outputFile \<longrightarrow>
            files (snd (route_finally rt (Some inputFile)
                     (snd (convert rt enc inputFile outputFile headerFields sheetName
                             encryptOutput st)))) outputFile \<noteq> None)
       \<and> (\<exists>root. assemble rt records headerFields = Inr root
            \<and> files st1 = (files st)(outputFile \<mapsto> utf8_encode rt (xml_end rt root)))
       \<and> (\<forall>content msg.
            files st1 outputFile = Some content
            \<and> cipher rt (aes_key enc) (randomBytes rt (aes_ivLength enc)) content = Inl msg
            \<longrightarrow> e = CryptoError msg
                \<and> files (snd (convert rt enc inputFile outputFile headerFields sheetName
                                encryptOutput st)) = files st1)"
proof -
  let ?st' = "snd (convert rt enc inputFile outputFile headerFields sheetName encryptOutput st)"
  from write_plaintext_result[OF assms(1)] obtain root where
    root: "assemble rt records headerFields = Inr root"
    and st1: "st1 = st\<lparr>files := (files st)(outputFile \<mapsto> utf8_encode rt (xml_end rt root))\<rparr>"
    by blast
  have flag: "encryptOutput"
    by (rule convert_failure(1)[OF assms(2,1)])
  have kept: "files ?st' outputFile \<noteq> None"
    by (rule convert_failure(2)[OF assms(2,1)])
  then have route: "inputFile \<noteq> outputFile \<longrightarrow>
                    files (snd (route_finally rt (Some inputFile) ?st')) outputFile \<noteq> None"
    by (simp add: route_finally_keeps)
  have cipher_throws: "e = CryptoError msg \<and> files ?st' = files st1"
    if "files st1 outputFile = Some content"
      and "cipher rt (aes_key enc) (randomBytes rt (aes_ivLength enc)) content = Inl msg"
    for content msg
    using convert_encryption_fails[OF assms(1) that] assms(2) flag by simp
  from root st1 have "files st1 = (files st)(outputFile \<mapsto> utf8_encode rt (xml_end rt root))"
    by simp
  with root kept route cipher_throws show ?thesis
    by blast
qed

lemma failing_write_plaintext:
  "write_plaintext failing_rt (js ''in.xlsx'') (js ''out.xml'') None None demo_state
   = Inr ((js ''Sheet1'', processExcelData decimal demo_sheet),
          demo_state\<lparr>files := (files demo_state)(js ''out.xml'' \<mapsto>
            utf8_encode failing_rt (xml_end failing_rt
              (Ele XML_ROOT_ELEMENT
                 [Ele XML_BODY_ELEMENT
                    (createDataSection (processExcelData decimal demo_sheet))])))\<rparr>)"
  by (rule demo_write_plaintext) (simp_all add: failing_rt_fields js_def)

lemma failing_convert:
  "fst (convert failing_rt (AESEncryption failing_rt None) (js ''in.xlsx'') (js ''out.xml'')
          None None True demo_state) = Inl (CryptoError (js ''cipher failure''))
   \<and> files (snd (convert failing_rt (AESEncryption failing_rt None) (js ''in.xlsx'')
                   (js ''out.xml'') None None True demo_state))
       = (files demo_state)(js ''out.xml'' \<mapsto>
            utf8_encode failing_rt (xml_end failing_rt
              (Ele XML_ROOT_ELEMENT
                 [Ele XML_BODY_ELEMENT
                    (createDataSection (processExcelData decimal demo_sheet))])))"
  using convert_encryption_fails[OF failing_write_plaintext,
      of _ "AESEncryption failing_rt None" "js ''cipher failure''"]
  by (simp add: failing_rt_fields)

lemma example_paths_differ:
  "js ''in.xlsx'' \<noteq> js ''out.xml''" "js ''out.xml.enc'' \<noteq> js ''out.xml''"
  "js ''out.xml.enc'' \<noteq> js ''in.xlsx''" "js ''a.xml'' \<noteq> js ''b.xml''"
  "js ''out.txt'' \<noteq> js ''in.xlsx''" "js ''in.xlsx'' \<noteq> []"
  by (simp_all add: js_def)

text \<open>
  The claim C1 as it stands fails: the cipher of this runtime throws, \<open>convert\<close>
  throws, the route's \<open>finally\<close> block runs, and the plaintext file is still at the
  output path.
\<close>

theorem plaintext_remains_counterexample:
  "fst (convert failing_rt (AESEncryption failing_rt None) (js ''in.xlsx'') (js ''out.xml'')
          None None True demo_state) = Inl (CryptoError (js ''cipher failure''))
   \<and> files (snd (route_finally failing_rt (Some (js ''in.xlsx''))
              (snd (convert failing_rt (AESEncryption failing_rt None) (js ''in.xlsx'')
                      (js ''out.xml'') None None True demo_state)))) (js ''out.xml'')
       = Some (utf8_encode failing_rt (xml_end failing_rt
            (Ele XML_ROOT_ELEMENT
               [Ele XML_BODY_ELEMENT
                  (createDataSection (processExcelData decimal demo_sheet))])))"
  using failing_convert example_paths_differ
  by (simp add: route_finally_def unlinkSync_def demo_state_def failing_rt_fields)

theorem failed_encryption_keeps_plaintext_witness:
  "write_plaintext failing_rt (js ''in.xlsx'') (js ''out.xml'') None None demo_state
     = Inr ((js ''Sheet1'', processExcelData decimal demo_sheet),
            demo_state\<lparr>files := (files demo_state)(js ''out.xml'' \<mapsto>
              utf8_encode failing_rt (xml_end failing_rt
                (Ele XML_ROOT_ELEMENT
                   [Ele XML_BODY_ELEMENT
                      (createDataSection (processExcelData decimal demo_sheet))])))\<rparr>)
   \<and> fst (convert failing_rt (AESEncryption failing_rt None) (js ''in.xlsx'') (js ''out.xml'')
            None None True demo_state) = Inl (CryptoError (js ''cipher failure''))
   \<and> js ''in.xlsx'' \<noteq> js ''out.xml''
   \<and> files (snd (convert failing_rt (AESEncryption failing_rt None) (js ''in.xlsx'')
                   (js ''out.xml'') None None True demo_state)) (js ''out.xml'') \<noteq> None
   \<and> files (snd (route_finally failing_rt (Some (js ''in.xlsx''))
              (snd (convert failing_rt (AESEncryption failing_rt None) (js ''in.xlsx'')
                      (js ''out.xml'') None None True demo_state)))) (js ''out.xml'') \<noteq> None
   \<and> files (snd (convert failing_rt (AESEncryption failing_rt None) (js ''in.xlsx'')
                   (js ''out.xml'') None None True demo_state)) (js ''out.xml.enc'') = None"
proof -
  let ?plain = "utf8_encode failing_rt (xml_end failing_rt
                  (Ele XML_ROOT_ELEMENT
                     [Ele XML_BODY_ELEMENT
                        (createDataSection (processExcelData decimal demo_sheet))]))"
  let ?st1 = "demo_state\<lparr>files := (files demo_state)(js ''out.xml'' \<mapsto> ?plain)\<rparr>"
  let ?st' = "snd (convert failing_rt (AESEncryption failing_rt None) (js ''in.xlsx'')
                     (js ''out.xml'') None None True demo_state)"
  have h2: "fst (convert failing_rt (AESEncryption failing_rt None) (js ''in.xlsx'')
                   (js ''out.xml'') None None True demo_state)
            = Inl (CryptoError (js ''cipher failure''))"
    using failing_convert by blast
  note th = failed_encryption_keeps_plaintext[OF failing_write_plaintext h2]
  from th have kept: "files ?st' (js ''out.xml'') \<noteq> None"
    by blast
  from th example_paths_differ(1)
  have route: "files (snd (route_finally failing_rt (Some (js ''in.xlsx'')) ?st'))
                 (js ''out.xml'') \<noteq> None"
    by blast
  have stored: "files ?st1 (js ''out.xml'') = Some ?plain"
    by simp
  have throws: "cipher failing_rt (aes_key (AESEncryption failing_rt None))
                  (randomBytes failing_rt (aes_ivLength (AESEncryption failing_rt None))) ?plain
                = Inl (js ''cipher failure'')"
    by (simp add: failing_rt_fields)
  from th stored throws have "files ?st' = files ?st1"
    by blast
  then have "files ?st' (js ''out.xml.enc'') = None"
    using example_paths_differ(2,3) by (simp add: demo_state_def)
  with failing_write_plaintext h2 example_paths_differ(1) kept route show ?thesis
    by blast
qed

text \<open>
  The failure of \<open>unlinkSync\<close> after the encrypted file has been written: the call
  throws, and both the plaintext and the encrypted file are there.
\<close>

lemma locked_rt_fields:
  "String_of locked_rt = decimal"
  "XLSX_readFile locked_rt
     = (\<lambda>bytes. if bytes = [] then Inl (js ''empty file'') else Inr demo_workbook)"
  "can_write locked_rt = (\<lambda>path. path \<noteq> [])"
  "can_unlink locked_rt = (\<lambda>path. False)"
  "cipher locked_rt = (\<lambda>k iv d. Inr (map (\<lambda>b. b + 1) d))"
  by (simp_all add: locked_rt_def demo_rt_def)

lemma locked_convert:
  "fst (convert locked_rt (AESEncryption locked_rt None) (js ''in.xlsx'') (js ''out.xml'')
          None None True demo_state) = Inl (FileSystemError (js ''out.xml''))
   \<and> files (snd (convert locked_rt (AESEncryption locked_rt None) (js ''in.xlsx'')
                   (js ''out.xml'') None None True demo_state)) (js ''out.xml'') \<noteq> None
   \<and> files (snd (convert locked_rt (AESEncryption locked_rt None) (js ''in.xlsx'')
                   (js ''out.xml'') None None True demo_state)) (js ''out.xml.enc'') \<noteq> None"
proof -
  define plain where
    "plain = utf8_encode locked_rt (xml_end locked_rt
               (Ele XML_ROOT_ELEMENT
                  [Ele XML_BODY_ELEMENT
                     (createDataSection (processExcelData decimal demo_sheet))]))"
  define st1 where
    "st1 = demo_state\<lparr>files := (files demo_state)(js ''out.xml'' \<mapsto> plain)\<rparr>"
  have enc: "replace_first (js ''.xml'') (js ''.xml.enc'') (js ''out.xml'') = js ''out.xml.enc''"
    by (simp add: js_def)
  have wp: "write_plaintext locked_rt (js ''in.xlsx'') (js ''out.xml'') None None demo_state
            = Inr ((js ''Sheet1'', processExcelData decimal demo_sheet), st1)"
    unfolding st1_def plain_def
    by (rule demo_write_plaintext) (simp_all add: locked_rt_fields js_def)
  have stored: "files st1 (js ''out.xml'') = Some plain"
    by (simp add: st1_def)
  have ciphered: "cipher locked_rt (aes_key (AESEncryption locked_rt None))
                    (randomBytes locked_rt (aes_ivLength (AESEncryption locked_rt None))) plain
                  = Inr (map (\<lambda>b. b + 1) plain)"
    by (simp add: locked_rt_fields)
  have writable: "can_write locked_rt (replace_first (js ''.xml'') (js ''.xml.enc'') (js ''out.xml''))"
    by (simp add: locked_rt_fields enc) (simp add: js_def)
  have locked: "\<not> can_unlink locked_rt (js ''out.xml'')"
    by (simp add: locked_rt_fields)
  from convert_unlink_fails[OF wp stored ciphered writable locked] stored
    example_paths_differ(2)
  show ?thesis
    by (simp add: enc)
qed

text \<open>
  The encrypted path is the output path with its first \<open>.xml\<close> replaced by
  \<open>.xml.enc\<close>. For an output path that contains \<open>.xml\<close>, a successful conversion
  with encryption leaves the base64 text of IV and ciphertext of the plaintext document at
  the encrypted path and no file at the output path.
\<close>

lemma encrypted_output_replaces_plaintext:
  assumes "convert rt enc inputFile outputFile headerFields sheetName True st = (Inr res, st')"
    and "outputFile = a @ js ''.xml'' @ b"
  shows "\<exists>sheet records root ct.
           write_plaintext rt inputFile outputFile headerFields sheetName st
             = Inr ((sheet, records),
                    st\<lparr>files := (files st)(outputFile \<mapsto> utf8_encode rt (xml_end rt root))\<rparr>)
           \<and> cipher rt (aes_key enc) (randomBytes rt (aes_ivLength enc))
                (utf8_encode rt (xml_end rt root)) = Inr ct
           \<and> files st' (replace_first (js ''.xml'') (js ''.xml.enc'') outputFile)
               = Some (utf8_encode rt
                         (base64_encode rt (randomBytes rt (aes_ivLength enc) @ ct)))
           \<and> files st' outputFile = None"
proof -
  from convert_try_result[OF convert_result[OF assms(1)]]
  obtain sheet records st1 finalOutput st2 ev where
    wp: "write_plaintext rt inputFile outputFile headerFields sheetName st
         = Inr ((sheet, records), st1)"
    and eo: "encrypt_output rt enc outputFile True st1 = (Inr finalOutput, st2)"
    and st': "st' = log_event ev st2"
    by blast
  from write_plaintext_result[OF wp] obtain root where
    st1: "st1 = st\<lparr>files := (files st)(outputFile \<mapsto> utf8_encode rt (xml_end rt root))\<rparr>"
    by blast
  from encrypt_output_success[OF eo] obtain content ct where
    final: "finalOutput = replace_first (js ''.xml'') (js ''.xml.enc'') outputFile"
    and content: "files st1 outputFile = Some content"
    and ct: "cipher rt (aes_key enc) (randomBytes rt (aes_ivLength enc)) content = Inr ct"
    and f: "files st2
            = ((files st1)(finalOutput \<mapsto>
                 utf8_encode rt (base64_encode rt (randomBytes rt (aes_ivLength enc) @ ct))))
              (outputFile := None)"
    by blast
  from content st1 have plain: "content = utf8_encode rt (xml_end rt root)"
    by simp
  from encrypted_path_differs[OF assms(2)] final have "finalOutput \<noteq> outputFile"
    by simp
  with f st' final have
    "files st' (replace_first (js ''.xml'') (js ''.xml.enc'') outputFile)
       = Some (utf8_encode rt (base64_encode rt (randomBytes rt (aes_ivLength enc) @ ct)))"
    and "files st' outputFile = None"
    by simp_all
  with wp st1 ct plain show ?thesis
    by blast
qed

lemma demo_write_plaintext_at:
  assumes "out \<noteq> []"
  shows "write_plaintext demo_rt (js ''in.xlsx'') out None None demo_state
         = Inr ((js ''Sheet1'', processExcelData decimal demo_sheet),
                demo_state\<lparr>files := (files demo_state)(out \<mapsto>
                  utf8_encode demo_rt (xml_end demo_rt
                    (Ele XML_ROOT_ELEMENT
                       [Ele XML_BODY_ELEMENT
                          (createDataSection (processExcelData decimal demo_sheet))])))\<rparr>)"
  by (rule demo_write_plaintext) (simp_all add: demo_rt_fields assms)

lemma demo_convert_encrypted:
  assumes "out \<noteq> []" and "replace_first (js ''.xml'') (js ''.xml.enc'') out \<noteq> []"
  shows "fst (convert demo_rt (AESEncryption demo_rt None) (js ''in.xlsx'') out None None True
                demo_state)
           = Inr \<lparr>success = True, rowsProcessed = 2, conversionTime = 42\<rparr>"
    and "files (snd (convert demo_rt (AESEncryption demo_rt None) (js ''in.xlsx'') out None
                       None True demo_state)) out = None"
    and "replace_first (js ''.xml'') (js ''.xml.enc'') out \<noteq> out \<Longrightarrow>
         files (snd (convert demo_rt (AESEncryption demo_rt None) (js ''in.xlsx'') out None
                       None True demo_state))
           (replace_first (js ''.xml'') (js ''.xml.enc'') out) \<noteq> None"
proof -
  define plain where
    "plain = utf8_encode demo_rt (xml_end demo_rt
               (Ele XML_ROOT_ELEMENT
                  [Ele XML_BODY_ELEMENT
                     (createDataSection (processExcelData decimal demo_sheet))]))"
  define st1 where "st1 = demo_state\<lparr>files := (files demo_state)(out \<mapsto> plain)\<rparr>"
  have wp: "write_plaintext demo_rt (js ''in.xlsx'') out None None demo_state
            = Inr ((js ''Sheet1'', processExcelData decimal demo_sheet), st1)"
    unfolding st1_def plain_def by (rule demo_write_plaintext_at[OF assms(1)])
  have stored: "files st1 out = Some plain"
    by (simp add: st1_def)
  have ciphered: "cipher demo_rt (aes_key (AESEncryption demo_rt None))
                    (randomBytes demo_rt (aes_ivLength (AESEncryption demo_rt None))) plain
                  = Inr (map (\<lambda>b. b + 1) plain)"
    by (simp add: demo_rt_fields)
  have writable: "can_write demo_rt (replace_first (js ''.xml'') (js ''.xml.enc'') out)"
    using assms(2) by (simp add: demo_rt_fields)
  have removable: "can_unlink demo_rt out"
    by (simp add: demo_rt_fields)
  note run = convert_encrypted_runs[OF wp stored ciphered writable removable]
  from run have "fst (convert demo_rt (AESEncryption demo_rt None) (js ''in.xlsx'') out None None
                        True demo_state)
                 = Inr \<lparr>success = True,
                        rowsProcessed = length (processExcelData decimal demo_sheet),
                        conversionTime = endTime demo_rt - startTime demo_rt\<rparr>"
    by blast
  then show "fst (convert demo_rt (AESEncryption demo_rt None) (js ''in.xlsx'') out None None
                    True demo_state)
             = Inr \<lparr>success = True, rowsProcessed = 2, conversionTime = 42\<rparr>"
    by (simp add: demo_records demo_rt_fields(13,14))
  from run show "files (snd (convert demo_rt (AESEncryption demo_rt None) (js ''in.xlsx'') out
                               None None True demo_state)) out = None"
    by simp
  from run show "files (snd (convert demo_rt (AESEncryption demo_rt None) (js ''in.xlsx'') out
                               None None True demo_state))
                   (replace_first (js ''.xml'') (js ''.xml.enc'') out) \<noteq> None"
    if "replace_first (js ''.xml'') (js ''.xml.enc'') out \<noteq> out"
    using that by simp
qed

text \<open>
  C7. After a successful conversion with encryption requested, the encrypted file should
  exist at the encrypted path for every output path. The code fails this for the output
  path \<open>out.txt\<close>, which holds no \<open>.xml\<close>: the encrypted path is the output
  path itself, the plaintext is encrypted in place, and the statement that removes the
  unencrypted file then removes the encrypted one. The call returns success, and no file
  is left at the encrypted path.
\<close>

theorem encrypt_in_place_loses_output:
  "fst (convert demo_rt (AESEncryption demo_rt None) (js ''in.xlsx'') (js ''out.txt'') None None
          True demo_state)
     = Inr \<lparr>success = True, rowsProcessed = 2, conversionTime = 42\<rparr>
   \<and> replace_first (js ''.xml'') (js ''.xml.enc'') (js ''out.txt'') = js ''out.txt''
   \<and> files (snd (convert demo_rt (AESEncryption demo_rt None) (js ''in.xlsx'') (js ''out.txt'')
                   None None True demo_state))
        (replace_first (js ''.xml'') (js ''.xml.enc'') (js ''out.txt'')) = None"
proof -
  have same: "replace_first (js ''.xml'') (js ''.xml.enc'') (js ''out.txt'') = js ''out.txt''"
    by (simp add: js_def)
  have ne: "js ''out.txt'' \<noteq> []"
    by (simp add: js_def)
  then have ne': "replace_first (js ''.xml'') (js ''.xml.enc'') (js ''out.txt'') \<noteq> []"
    by (simp add: same)
  from demo_convert_encrypted(1,2)[OF ne ne'] same show ?thesis
    by simp
qed

text \<open>The same conversion with the output path \<open>out.xml\<close> leaves the encrypted file.\<close>

lemma demo_xml_path_encrypted:
  "fst (convert demo_rt (AESEncryption demo_rt None) (js ''in.xlsx'') (js ''out.xml'') None None
          True demo_state)
     = Inr \<lparr>success = True, rowsProcessed = 2, conversionTime = 42\<rparr>
   \<and> replace_first (js ''.xml'') (js ''.xml.enc'') (js ''out.xml'') = js ''out.xml.enc''
   \<and> files (snd (convert demo_rt (AESEncryption demo_rt None) (js ''in.xlsx'') (js ''out.xml'')
                   None None True demo_state)) (js ''out.xml.enc'') \<noteq> None
   \<and> files (snd (convert demo_rt (AESEncryption demo_rt None) (js ''in.xlsx'') (js ''out.xml'')
                   None None True demo_state)) (js ''out.xml'') = None"
proof -
  have enc: "replace_first (js ''.xml'') (js ''.xml.enc'') (js ''out.xml'') = js ''out.xml.enc''"
    by (simp add: js_def)
  have ne: "js ''out.xml'' \<noteq> []"
    by (simp add: js_def)
  have ne': "replace_first (js ''.xml'') (js ''.xml.enc'') (js ''out.xml'') \<noteq> []"
    by (simp add: enc) (simp add: js_def)
  from demo_convert_encrypted[OF ne ne'] enc example_paths_differ(2) show ?thesis
    by simp
qed

lemma encrypt_output_plain: "encrypt_output rt enc outputFile False st = (Inr outputFile, st)"
  by (simp add: encrypt_output_def)

text \<open>
  C9 (as amended). A successful conversion returns a summary of three fields: the success
  flag, the number of records extracted from the selected sheet, and the elapsed time
  between the two clock readings. The final output path, which is the encrypted path when
  encryption was requested and the output path otherwise, is not part of the summary: it
  goes to the audit record of the conversion, the last record of the call.
\<close>

theorem convert_summary:
  assumes "convert rt enc inputFile outputFile headerFields sheetName encryptOutput st
           = (Inr res, st')"
  shows "\<exists>sheet ws.
           load_worksheet rt inputFile sheetName st = Inr (sheet, ws)
           \<and> res = \<lparr>success = True,
                     rowsProcessed = length (processExcelData (String_of rt) ws),
                     conversionTime = endTime rt - startTime rt\<rparr>
           \<and> audit st' \<noteq> []
           \<and> (\<exists>cols.
                 last (audit st')
                 = ConversionEvent inputFile
                     (if encryptOutput
                      then replace_first (js ''.xml'') (js ''.xml.enc'') outputFile
                      else outputFile)
                     (endTime rt - startTime rt)
                     (length (processExcelData (String_of rt) ws)) cols sheet encryptOutput)"
proof -
  from convert_try_result[OF convert_result[OF assms]]
  obtain sheet records st1 finalOutput st2 where
    wp: "write_plaintext rt inputFile outputFile headerFields sheetName st
         = Inr ((sheet, records), st1)"
    and eo: "encrypt_output rt enc outputFile encryptOutput st1 = (Inr finalOutput, st2)"
    and res: "res = \<lparr>success = True, rowsProcessed = length records,
                      conversionTime = endTime rt - startTime rt\<rparr>"
    and st': "st' = log_event
                (ConversionEvent inputFile finalOutput (endTime rt - startTime rt)
                   (length records)
                   (if length records > 0 then obj_keys (hd records) else [])
                   sheet encryptOutput)
                st2"
    by blast
  from write_plaintext_result[OF wp] obtain ws where
    ld: "load_worksheet rt inputFile sheetName st = Inr (sheet, ws)"
    and ex: "extract_records rt ws = Inr records"
    by blast
  from extract_records_result[OF ex] have recs: "records = processExcelData (String_of rt) ws"
    by blast
  have final: "finalOutput = (if encryptOutput
                              then replace_first (js ''.xml'') (js ''.xml.enc'') outputFile
                              else outputFile)"
  proof (cases encryptOutput)
    case True
    with eo have "encrypt_output rt enc outputFile True st1 = (Inr finalOutput, st2)"
      by simp
    from encrypt_output_success[OF this] True show ?thesis
      by simp
  next
    case False
    with eo show ?thesis
      by (simp add: encrypt_output_plain)
  qed
  have "audit st' \<noteq> []"
    by (simp add: st' log_event_def)
  moreover have "last (audit st')
                 = ConversionEvent inputFile
                     (if encryptOutput
                      then replace_first (js ''.xml'') (js ''.xml.enc'') outputFile
                      else outputFile)
                     (endTime rt - startTime rt)
                     (length (processExcelData (String_of rt) ws))
                     (if length records > 0 then obj_keys (hd records) else [])
                     sheet encryptOutput"
    unfolding st' by (simp add: log_event_def final[symmetric] recs[symmetric])
  ultimately show ?thesis
    using ld res recs by blast
qed

lemma demo_convert_plain:
  assumes "out \<noteq> []"
  shows "fst (convert demo_rt (AESEncryption demo_rt None) (js ''in.xlsx'') out None None False
                demo_state)
         = Inr \<lparr>success = True, rowsProcessed = 2, conversionTime = 42\<rparr>"
  using convert_plain_runs[OF demo_write_plaintext_at[OF assms], of "AESEncryption demo_rt None"]
  by (simp add: demo_records demo_rt_fields)

text \<open>
  The claim C9 as it stands fails: two conversions that differ in the output path, and so
  in the final output path, return the same summary.
\<close>

theorem summary_without_path_counterexample:
  "fst (convert demo_rt (AESEncryption demo_rt None) (js ''in.xlsx'') (js ''a.xml'') None None
          False demo_state)
     = Inr \<lparr>success = True, rowsProcessed = 2, conversionTime = 42\<rparr>
   \<and> fst (convert demo_rt (AESEncryption demo_rt None) (js ''in.xlsx'') (js ''b.xml'') None None
            False demo_state)
     = Inr \<lparr>success = True, rowsProcessed = 2, conversionTime = 42\<rparr>
   \<and> js ''a.xml'' \<noteq> js ''b.xml''"
proof -
  have "js ''a.xml'' \<noteq> []" and "js ''b.xml'' \<noteq> []"
    by (simp_all add: js_def)
  with demo_convert_plain[of "js ''a.xml''"] demo_convert_plain[of "js ''b.xml''"]
    example_paths_differ(4)
  show ?thesis
    by simp
qed

theorem convert_summary_witness:
  "fst (convert demo_rt (AESEncryption demo_rt None) (js ''in.xlsx'') (js ''a.xml'') None None
          False demo_state)
     = Inr \<lparr>success = True, rowsProcessed = 2, conversionTime = 42\<rparr>
   \<and> load_worksheet demo_rt (js ''in.xlsx'') None demo_state = Inr (js ''Sheet1'', demo_sheet)
   \<and> length (processExcelData (String_of demo_rt) demo_sheet) = 2
   \<and> endTime demo_rt - startTime demo_rt = 42
   \<and> audit (snd (convert demo_rt (AESEncryption demo_rt None) (js ''in.xlsx'') (js ''a.xml'')
                   None None False demo_state)) \<noteq> []"
proof -
  let ?run = "convert demo_rt (AESEncryption demo_rt None) (js ''in.xlsx'') (js ''a.xml'')
                None None False demo_state"
  have "js ''a.xml'' \<noteq> []"
    by (simp add: js_def)
  from demo_convert_plain[OF this]
  have ok: "fst ?run = Inr \<lparr>success = True, rowsProcessed = 2, conversionTime = 42\<rparr>" .
  then have h: "?run = (Inr \<lparr>success = True, rowsProcessed = 2, conversionTime = 42\<rparr>, snd ?run)"
    by (simp add: prod_eq_iff)
  have ld: "load_worksheet demo_rt (js ''in.xlsx'') None demo_state
            = Inr (js ''Sheet1'', demo_sheet)"
    by (rule demo_load(1)) (simp add: demo_rt_fields)
  have n: "length (processExcelData (String_of demo_rt) demo_sheet) = 2"
    by (simp add: demo_rt_fields demo_records)
  have t: "endTime demo_rt - startTime demo_rt = 42"
    by (simp add: demo_rt_fields)
  from convert_summary[OF h] have "audit (snd ?run) \<noteq> []"
    by blast
  with ok ld n t show ?thesis
    by blast
qed

end
